theory Spec2Isabelle
  imports Complex_Main "HOL-Library.Multiset" "HOL-Library.Sublist"
begin

section \<open>Content model (internal/core/llmtypes.go)\<close>

text \<open>
  Go strings are byte sequences; they are modelled as \<open>string\<close> (a list of 8-bit
  characters), so \<open>length\<close> is Go's \<open>len\<close>. A Go slice that may be \<open>nil\<close> and whose
  nil-ness the code tests (\<open>MessageContent.Blocks\<close>) is a \<open>list option\<close>, \<open>None\<close> being
  \<open>nil\<close>. A pointer field is an \<open>option\<close>. A raw JSON value (\<open>json.RawMessage\<close>, a byte
  slice) is a \<open>string option\<close>, since the encoder writes a \<open>nil\<close> one as \<open>null\<close> and
  checks any other one; the field \<open>ContentBlock.Input\<close> is a pointer to such a value.
\<close>

record ImageSource =
  src_Type :: string
  src_MediaType :: string
  src_Data :: string

record ContentBlock =
  cb_Type :: string
  cb_Text :: string
  cb_Source :: "ImageSource option"
  cb_ID :: string
  cb_Name :: string
  cb_Input :: "string option option"
  cb_ToolUseID :: string
  cb_Content :: string
  cb_IsError :: "bool option"

record MessageContent =
  mc_Text :: string
  mc_Blocks :: "ContentBlock list option"

record Message =
  Role :: string
  Content :: MessageContent

definition IsBlocks :: "MessageContent \<Rightarrow> bool" where
  "IsBlocks mc = (mc_Blocks mc \<noteq> None)"

definition TextContent :: "string \<Rightarrow> MessageContent" where
  "TextContent text = \<lparr>mc_Text = text, mc_Blocks = None\<rparr>"

definition BlocksContent :: "ContentBlock list option \<Rightarrow> MessageContent" where
  "BlocksContent blocks = \<lparr>mc_Text = [], mc_Blocks = blocks\<rparr>"

text \<open>
  A slice variable declared with \<open>var s []T\<close> and filled by \<open>append\<close> only is \<open>nil\<close>
  exactly when nothing was appended.
\<close>

definition appended :: "'a list \<Rightarrow> 'a list option" where
  "appended xs = (if xs = [] then None else Some xs)"

text \<open>Ranging over a slice visits nothing when the slice is \<open>nil\<close>.\<close>

definition blocks_of :: "MessageContent \<Rightarrow> ContentBlock list" where
  "blocks_of mc = (case mc_Blocks mc of None \<Rightarrow> [] | Some bs \<Rightarrow> bs)"

definition emptyBlock :: ContentBlock where
  "emptyBlock = \<lparr>cb_Type = [], cb_Text = [], cb_Source = None, cb_ID = [], cb_Name = [],
     cb_Input = None, cb_ToolUseID = [], cb_Content = [], cb_IsError = None\<rparr>"

definition TextBlock :: "string \<Rightarrow> ContentBlock" where
  "TextBlock text = emptyBlock\<lparr>cb_Type := ''text'', cb_Text := text\<rparr>"

definition ImageBlock :: "string \<Rightarrow> string \<Rightarrow> ContentBlock" where
  "ImageBlock mediaType base64Data = emptyBlock\<lparr>cb_Type := ''image'',
     cb_Source := Some \<lparr>src_Type = ''base64'', src_MediaType = mediaType, src_Data = base64Data\<rparr>\<rparr>"

definition ToolUseBlock :: "string \<Rightarrow> string \<Rightarrow> string option \<Rightarrow> ContentBlock" where
  "ToolUseBlock ident name input =
     emptyBlock\<lparr>cb_Type := ''tool_use'', cb_ID := ident, cb_Name := name, cb_Input := Some input\<rparr>"

definition ToolResultBlock :: "string \<Rightarrow> string \<Rightarrow> bool \<Rightarrow> ContentBlock" where
  "ToolResultBlock toolUseID content isError =
     emptyBlock\<lparr>cb_Type := ''tool_result'', cb_ToolUseID := toolUseID, cb_Content := content,
       cb_IsError := (if isError then Some isError else None)\<rparr>"

record ResponseContentBlock =
  rb_Type :: string
  rb_Text :: string
  rb_ID :: string
  rb_Name :: string
  rb_Input :: "string option"

record Usage =
  InputTokens :: nat
  OutputTokens :: nat

record MessagesResponse =
  resp_Content :: "ResponseContentBlock list"
  resp_StopReason :: string
  resp_Usage :: "Usage option"


section \<open>Sanitizer (package llm, SanitizeMessages)\<close>

definition newline :: string where
  "newline = [CHR 0x0A]"

text \<open>\<open>strings.Join\<close>, also the hand-written join loop of \<open>messageToText\<close>.\<close>

fun Join :: "string list \<Rightarrow> string \<Rightarrow> string" where
  "Join [] sep = []"
| "Join [p] sep = p"
| "Join (p # q # ps) sep = p @ sep @ Join (q # ps) sep"

definition messageToText :: "Message \<Rightarrow> string" where
  "messageToText msg =
     (if \<not> IsBlocks (Content msg) then mc_Text (Content msg)
      else Join (map cb_Text
             (filter (\<lambda>b. cb_Type b = ''text'' \<and> cb_Text b \<noteq> []) (blocks_of (Content msg))))
             newline)"

text \<open>First loop: the ids of the \<open>tool_use\<close> blocks of assistant messages.\<close>

fun toolUseIDs :: "Message list \<Rightarrow> string set" where
  "toolUseIDs [] = {}"
| "toolUseIDs (msg # rest) =
     (if Role msg \<noteq> ''assistant'' then toolUseIDs rest
      else if IsBlocks (Content msg)
        then set (map cb_ID (filter (\<lambda>b. cb_Type b = ''tool_use'') (blocks_of (Content msg))))
               \<union> toolUseIDs rest
        else toolUseIDs rest)"

text \<open>Second loop: orphan \<open>tool_result\<close> blocks leave user messages; an emptied message is skipped.\<close>

fun removeOrphans :: "string set \<Rightarrow> Message list \<Rightarrow> Message list" where
  "removeOrphans ids [] = []"
| "removeOrphans ids (msg # rest) =
     (if Role msg = ''user'' \<and> IsBlocks (Content msg) then
        (let kept = filter (\<lambda>b. \<not> (cb_Type b = ''tool_result'' \<and> cb_ToolUseID b \<notin> ids))
                      (blocks_of (Content msg))
         in if length kept = 0 then removeOrphans ids rest
            else \<lparr>Role = Role msg, Content = BlocksContent (appended kept)\<rparr> # removeOrphans ids rest)
      else msg # removeOrphans ids rest)"

text \<open>
  Third loop: \<open>merged\<close> is the slice built so far; a message with the role of its last
  element is folded into that element as text, unless both texts are empty.
\<close>

fun mergeSameRole :: "Message list \<Rightarrow> Message list \<Rightarrow> Message list" where
  "mergeSameRole merged [] = merged"
| "mergeSameRole merged (msg # rest) =
     (if length merged > 0 \<and> Role (last merged) = Role msg then
        (let lastText = messageToText (last merged);
             newText = messageToText msg
         in if lastText \<noteq> [] \<or> newText \<noteq> [] then
              (let combined = lastText;
                   combined = (if combined \<noteq> [] \<and> newText \<noteq> [] then combined @ newline else combined);
                   combined = combined @ newText
               in mergeSameRole (butlast merged @ [(last merged)\<lparr>Content := TextContent combined\<rparr>]) rest)
            else mergeSameRole merged rest)
      else mergeSameRole (merged @ [msg]) rest)"

definition SanitizeMessages :: "Message list \<Rightarrow> Message list" where
  "SanitizeMessages messages =
     (if length messages = 0 then messages
      else mergeSameRole [] (removeOrphans (toolUseIDs messages) messages))"


section \<open>Image stripping (internal/agent/history.go)\<close>

definition StripImagesForSession :: "Message list \<Rightarrow> Message list" where
  "StripImagesForSession messages =
     map (\<lambda>msg.
       if \<not> IsBlocks (Content msg) then msg
       else (let filtered = filter (\<lambda>b. cb_Type b \<noteq> ''image'') (blocks_of (Content msg))
             in if length filtered = 0
                then \<lparr>Role = Role msg, Content = TextContent ''[image]''\<rparr>
                else \<lparr>Role = Role msg, Content = BlocksContent (appended filtered)\<rparr>))
       messages"


section \<open>String helpers (Go standard library functions used by the agent)\<close>

text \<open>
  \<open>strings.HasPrefix\<close> and \<open>strings.HasSuffix\<close> are \<open>prefix\<close> and \<open>suffix\<close> on byte
  lists. \<open>strings.Index\<close> gives the byte offset of the first occurrence, \<open>None\<close> for -1.
\<close>

fun Index :: "string \<Rightarrow> string \<Rightarrow> nat option" where
  "Index [] sub = (if sub = [] then Some 0 else None)"
| "Index (c # s) sub =
     (if prefix sub (c # s) then Some 0 else map_option Suc (Index s sub))"

text \<open>
  \<open>strings.ToLower\<close> lowers every rune; on the ASCII letters it is the table below. The
  agent only tests the result against the ASCII literal \<open>/remember:\<close>, and no rune
  outside ASCII has a lower case among the letters of that literal, so the byte-wise
  table decides the test as the library function does.
\<close>

definition lowerByte :: "char \<Rightarrow> char" where
  "lowerByte c =
     (case map_of (zip ''ABCDEFGHIJKLMNOPQRSTUVWXYZ'' ''abcdefghijklmnopqrstuvwxyz'') c of
        None \<Rightarrow> c | Some l \<Rightarrow> l)"

definition ToLower :: "string \<Rightarrow> string" where
  "ToLower s = map lowerByte s"

text \<open>
  \<open>strings.TrimSpace\<close> removes leading and trailing Unicode white space. The white-space
  runes are listed by their UTF-8 encodings: the six ASCII ones, U+0085, U+00A0, U+1680,
  U+2000 to U+200A, U+2028, U+2029, U+202F, U+205F and U+3000.
\<close>

definition spaceRunes :: "string list" where
  "spaceRunes =
     [[CHR 0x09], [CHR 0x0A], [CHR 0x0B], [CHR 0x0C], [CHR 0x0D], [CHR 0x20],
      [CHR 0xC2, CHR 0x85], [CHR 0xC2, CHR 0xA0], [CHR 0xE1, CHR 0x9A, CHR 0x80],
      [CHR 0xE2, CHR 0x80, CHR 0x80], [CHR 0xE2, CHR 0x80, CHR 0x81],
      [CHR 0xE2, CHR 0x80, CHR 0x82], [CHR 0xE2, CHR 0x80, CHR 0x83],
      [CHR 0xE2, CHR 0x80, CHR 0x84], [CHR 0xE2, CHR 0x80, CHR 0x85],
      [CHR 0xE2, CHR 0x80, CHR 0x86], [CHR 0xE2, CHR 0x80, CHR 0x87],
      [CHR 0xE2, CHR 0x80, CHR 0x88], [CHR 0xE2, CHR 0x80, CHR 0x89],
      [CHR 0xE2, CHR 0x80, CHR 0x8A], [CHR 0xE2, CHR 0x80, CHR 0xA8],
      [CHR 0xE2, CHR 0x80, CHR 0xA9], [CHR 0xE2, CHR 0x80, CHR 0xAF],
      [CHR 0xE2, CHR 0x81, CHR 0x9F], [CHR 0xE3, CHR 0x80, CHR 0x80]]"

text \<open>The length of the white-space rune that starts \<open>s\<close>, 0 when none does.\<close>

definition leadingSpace :: "string \<Rightarrow> nat" where
  "leadingSpace s = (case find (\<lambda>w. prefix w s) spaceRunes of None \<Rightarrow> 0 | Some w \<Rightarrow> length w)"

definition trailingSpace :: "string \<Rightarrow> nat" where
  "trailingSpace s = (case find (\<lambda>w. suffix w s) spaceRunes of None \<Rightarrow> 0 | Some w \<Rightarrow> length w)"

lemma leadingSpace_le: "leadingSpace s \<le> length s"
  unfolding leadingSpace_def
  by (auto split: option.splits simp: find_Some_iff dest: prefix_length_le)

lemma trailingSpace_le: "trailingSpace s \<le> length s"
  unfolding trailingSpace_def
  by (auto split: option.splits simp: find_Some_iff dest: suffix_length_le)

function TrimLeft :: "string \<Rightarrow> string" where
  "TrimLeft s = (if leadingSpace s = 0 then s else TrimLeft (drop (leadingSpace s) s))"
  by pat_completeness auto
termination
proof (relation "measure length")
  show "wf (measure length)" by simp
next
  fix s :: string
  assume "leadingSpace s \<noteq> 0"
  with leadingSpace_le [of s] show "(drop (leadingSpace s) s, s) \<in> measure length"
    by simp
qed

function TrimRight :: "string \<Rightarrow> string" where
  "TrimRight s =
     (if trailingSpace s = 0 then s else TrimRight (take (length s - trailingSpace s) s))"
  by pat_completeness auto
termination
proof (relation "measure length")
  show "wf (measure length)" by simp
next
  fix s :: string
  assume "trailingSpace s \<noteq> 0"
  with trailingSpace_le [of s] show "(take (length s - trailingSpace s) s, s) \<in> measure length"
    by simp
qed

text \<open>
  The defining equations of the looping functions are unconditional; they are taken out
  of the simplifier's set and unfolded on demand.
\<close>

declare TrimLeft.simps [simp del] TrimRight.simps [simp del]

lemma Index_bound: "Index s sub = Some i \<Longrightarrow> i + length sub \<le> length s"
  by (induction s arbitrary: i) (auto split: if_splits dest: prefix_length_le)

definition TrimSpace :: "string \<Rightarrow> string" where
  "TrimSpace s = TrimRight (TrimLeft s)"

text \<open>\<open>fmt.Sprintf("%d", n)\<close>.\<close>

function showNat :: "nat \<Rightarrow> string" where
  "showNat n = (if n < 10 then [''0123456789'' ! n] else showNat (n div 10) @ [''0123456789'' ! (n mod 10)])"
  by pat_completeness auto
termination
  by (relation "measure id") auto

declare showNat.simps [simp del]

definition showInt :: "int \<Rightarrow> string" where
  "showInt i = (if i < 0 then ''-'' @ showNat (nat (- i)) else showNat (nat i))"


section \<open>History conversion (internal/agent/history.go)\<close>

record StoredMessage =
  sm_ID :: string
  sm_ChatID :: int
  sm_SenderName :: string
  sm_Content :: string
  sm_IsFromBot :: bool
  sm_Timestamp :: string

definition MessageToText :: "Message \<Rightarrow> string" where
  "MessageToText msg =
     (if \<not> IsBlocks (Content msg) then mc_Text (Content msg)
      else Join (map cb_Text
             (filter (\<lambda>b. cb_Type b = ''text'' \<and> cb_Text b \<noteq> []) (blocks_of (Content msg))))
             newline)"

fun mergeConsecutiveLoop :: "Message list \<Rightarrow> Message list \<Rightarrow> Message list" where
  "mergeConsecutiveLoop merged [] = merged"
| "mergeConsecutiveLoop merged (msg # rest) =
     (if length merged > 0 \<and> Role (last merged) = Role msg then
        (let prevText = mc_Text (Content (last merged));
             newText = mc_Text (Content msg)
         in if prevText \<noteq> [] \<and> newText \<noteq> [] then
              mergeConsecutiveLoop
                (butlast merged @ [(last merged)\<lparr>Content := TextContent (prevText @ newline @ newText)\<rparr>]) rest
            else if newText \<noteq> [] then
              mergeConsecutiveLoop (butlast merged @ [(last merged)\<lparr>Content := TextContent newText\<rparr>]) rest
            else mergeConsecutiveLoop merged rest)
      else mergeConsecutiveLoop (merged @ [msg]) rest)"

definition mergeConsecutiveMessages :: "Message list \<Rightarrow> Message list" where
  "mergeConsecutiveMessages messages =
     (if length messages \<le> 1 then messages else mergeConsecutiveLoop [] messages)"

definition HistoryToMessages :: "StoredMessage list \<Rightarrow> string \<Rightarrow> Message list" where
  "HistoryToMessages history botUsername =
     mergeConsecutiveMessages
       (map (\<lambda>msg.
          \<lparr>Role = (if sm_IsFromBot msg then ''assistant'' else ''user''),
           Content = TextContent
             (if \<not> sm_IsFromBot msg \<and> sm_SenderName msg \<noteq> []
              then ''['' @ sm_SenderName msg @ '']: '' @ sm_Content msg
              else sm_Content msg)\<rparr>) history)"

text \<open>
  \<open>StripThinking\<close>: each round of the loop cuts one \<open><think>\<close> span; an unclosed tag cuts
  to the end of the text.
\<close>

function StripThinkingLoop :: "string \<Rightarrow> string" where
  "StripThinkingLoop text =
     (case Index text ''<think>'' of
        None \<Rightarrow> text
      | Some start \<Rightarrow>
          (case Index (drop start text) ''</think>'' of
             None \<Rightarrow> take start text
           | Some end \<Rightarrow>
               StripThinkingLoop (take start text @ drop (start + end + length ''</think>'') text)))"
  by pat_completeness auto
termination
proof (relation "measure length")
  show "wf (measure length)" by simp
next
  fix s :: string and start e :: nat
  assume a: "Index s ''<think>'' = Some start"
    and b: "Index (drop start s) ''</think>'' = Some e"
  from Index_bound [OF a] have "start \<le> length s" by simp
  moreover from Index_bound [OF b] have "e + length ''</think>'' \<le> length s - start" by simp
  ultimately show "(take start s @ drop (start + e + length ''</think>'') s, s) \<in> measure length"
    by simp
qed

declare StripThinkingLoop.simps [simp del]

definition StripThinking :: "string \<Rightarrow> string" where
  "StripThinking text = TrimSpace (StripThinkingLoop text)"

definition extractText :: "MessagesResponse \<Rightarrow> string" where
  "extractText resp =
     Join (map rb_Text (filter (\<lambda>b. rb_Type b = ''text'' \<and> rb_Text b \<noteq> []) (resp_Content resp)))
       newline"

definition responseToContent :: "MessagesResponse \<Rightarrow> MessageContent" where
  "responseToContent resp =
     (if length (resp_Content resp) = 1 \<and> rb_Type (resp_Content resp ! 0) = ''text''
      then TextContent (rb_Text (resp_Content resp ! 0))
      else BlocksContent (appended (concat (map (\<lambda>b.
             if rb_Type b = ''text'' then [TextBlock (rb_Text b)]
             else if rb_Type b = ''tool_use'' then [ToolUseBlock (rb_ID b) (rb_Name b) (rb_Input b)]
             else []) (resp_Content resp)))))"


section \<open>The outside world: database, provider, tools\<close>

text \<open>
  The agent talks to a database, a model provider and a tool registry. Every call that
  changes or may change the outside world is recorded, in order, as an \<open>Effect\<close>; the
  answers of the outside world are functions of the effects so far and of the call's
  arguments, collected in \<open>Env\<close>. A theorem that holds for every \<open>Env\<close> holds whatever
  the database, the provider and the tools answer. Logging (\<open>log.Printf\<close>) and the
  optional event channel are write-only for the agent and are left out;
  \<open>SendMessage\<close> and \<open>SendMessageStream\<close> differ only in feeding that channel and are one
  entry. The static tool definitions and the tool authorisation context are fixed for a
  run and are not arguments of the entries.

  Scores and confidences are \<open>float64\<close> in the code. The finite floats are real numbers
  with the same order, so they are written as \<open>real\<close>; the floating-point arithmetic
  that computes a score from a memory and a query is not modelled and is the entry
  \<open>scoreOf\<close>. \<open>BuildSystemPrompt\<close> stands for the prompt assembly from the memory
  context (with the soul file, the skills catalog and the clock), \<open>json_Valid\<close> for
  \<open>encoding/json\<close>'s check of a raw tool input. The JSON text of a session is not
  modelled: \<open>LoadSession\<close> gives the four results of the agent's \<open>LoadSession\<close> (the
  database read followed by the decoding), and a \<open>SaveSessionCall\<close> carries the message
  list whose encoding is handed to the database. The deadline that \<open>CompactMessages\<close>
  puts on its model call shows as an error answer of the provider.
\<close>

record Memory =
  mem_ID :: int
  mem_ChatID :: "int option"
  mem_Content :: string
  mem_Category :: string
  mem_Confidence :: real

record ToolResult =
  tr_Content :: string
  tr_IsError :: bool

datatype Effect =
    InsertMemoryWithMetadataCall "int option" string string string real
  | LogMemoryInjectionCall int string int int int int
  | ArchiveConversationCall string int "Message list"
  | SendMessageCall string "Message list" bool
  | LogLLMUsageCall int string nat nat
  | ExecuteWithAuthCall string "string option"
  | SaveSessionCall int "Message list"

record Env =
  db_GetRecentMessages :: "Effect list \<Rightarrow> int \<Rightarrow> int \<Rightarrow> StoredMessage list \<times> string option"
  db_GetMessagesSinceLastBotResponse ::
    "Effect list \<Rightarrow> int \<Rightarrow> int \<Rightarrow> int \<Rightarrow> StoredMessage list \<times> string option"
  db_GetNewUserMessagesSince ::
    "Effect list \<Rightarrow> int \<Rightarrow> string \<Rightarrow> int \<Rightarrow> StoredMessage list \<times> string option"
  db_GetMemoriesForContext :: "Effect list \<Rightarrow> int \<Rightarrow> int \<Rightarrow> Memory list \<times> string option"
  LoadSession :: "Effect list \<Rightarrow> int \<Rightarrow> Message list \<times> string \<times> bool \<times> string option"
  llm_SendMessage :: "Effect list \<Rightarrow> string \<Rightarrow> Message list \<Rightarrow> bool \<Rightarrow> string + MessagesResponse"
  tools_ExecuteWithAuth :: "Effect list \<Rightarrow> string \<Rightarrow> string option \<Rightarrow> ToolResult"
  ctx_Err :: "Effect list \<Rightarrow> string option"
  json_Valid :: "string \<Rightarrow> bool"
  scoreOf :: "string \<Rightarrow> Memory \<Rightarrow> real"
  BuildSystemPrompt :: "string \<Rightarrow> string"

record Config =
  cfg_BotUsername :: string
  cfg_MaxToolIterations :: int
  cfg_MaxHistoryMessages :: int
  cfg_MaxSessionMessages :: int
  cfg_CompactKeepRecent :: int
  cfg_MemoryTokenBudget :: int

record AgentRequestContext =
  CallerChannel :: string
  ChatID :: int
  ChatType :: string

record ImageData =
  img_MediaType :: string
  img_Base64 :: string

datatype AgentError =
    ContextError string
  | LLMCallError int string
  | LoadingHistoryError string
  | SliceBoundsPanic


section \<open>Session persistence (internal/agent/memory_context.go, SaveSession)\<close>

text \<open>
  \<open>json.Marshal\<close> omits the input of a block whose pointer is \<open>nil\<close>, writes \<open>null\<close> for a
  \<open>nil\<close> raw value, and fails on any other raw value that is not valid JSON; when it fails
  the database is not called. Otherwise the database is handed the encoding of the
  stripped list, recorded as \<open>SaveSessionCall\<close> with that list.
\<close>

definition marshalOK :: "Env \<Rightarrow> Message list \<Rightarrow> bool" where
  "marshalOK env messages =
     (\<forall>msg \<in> set messages. \<forall>b \<in> set (blocks_of (Content msg)).
        case cb_Input b of
          None \<Rightarrow> True
        | Some None \<Rightarrow> True
        | Some (Some raw) \<Rightarrow> json_Valid env raw)"

definition SaveSession :: "Env \<Rightarrow> Effect list \<Rightarrow> int \<Rightarrow> Message list \<Rightarrow> string option \<times> Effect list" where
  "SaveSession env tr chatID messages =
     (let stripped = StripImagesForSession messages
      in if \<not> marshalOK env stripped then (Some ''marshalling session'', tr)
         else (None, tr @ [SaveSessionCall chatID stripped]))"


section \<open>Memory context ranker (internal/agent/memory_context.go, BuildDBMemoryContext)\<close>

record scored =
  mem :: Memory
  score :: real

text \<open>
  The sort of lines 52 to 59: for each \<open>i\<close>, every later \<open>j\<close> whose score is greater than
  the one now at \<open>i\<close> is exchanged with \<open>i\<close>.
\<close>

definition swapAt :: "nat \<Rightarrow> nat \<Rightarrow> 'a list \<Rightarrow> 'a list" where
  "swapAt i j xs = xs[i := xs ! j, j := xs ! i]"

definition sortStep :: "nat \<Rightarrow> nat \<Rightarrow> scored list \<Rightarrow> scored list" where
  "sortStep i j candidates =
     (if score (candidates ! j) > score (candidates ! i) then swapAt i j candidates else candidates)"

definition sortInner :: "nat \<Rightarrow> scored list \<Rightarrow> scored list" where
  "sortInner i candidates = fold (sortStep i) [i + 1 ..< length candidates] candidates"

definition sortCandidates :: "scored list \<Rightarrow> scored list" where
  "sortCandidates candidates = fold sortInner [0 ..< length candidates - 1] candidates"

definition estimate :: "Memory \<Rightarrow> int" where
  "estimate m = int (length (mem_Content m) div 4)"

text \<open>
  The selection loop of lines 61 to 76; the state is
  \<open>(selected, tokensUsed, selectedCount, omittedCount)\<close>. Go's \<open>int\<close> has 64 bits; the sums
  of lengths here stay far below that, and the counters are unbounded integers.
\<close>

fun selectLoop :: "int \<Rightarrow> scored list \<Rightarrow> Memory list \<times> int \<times> int \<times> int \<Rightarrow> Memory list \<times> int \<times> int \<times> int" where
  "selectLoop tokenBudget [] st = st"
| "selectLoop tokenBudget (c # cs) (selected, tokensUsed, selectedCount, omittedCount) =
     (let est = estimate (mem c)
      in if tokensUsed + est > tokenBudget \<and> selectedCount > 0
         then selectLoop tokenBudget cs (selected, tokensUsed, selectedCount, omittedCount + 1)
         else selectLoop tokenBudget cs (selected @ [mem c], tokensUsed + est, selectedCount + 1, omittedCount))"

definition formatMemories :: "Memory list \<Rightarrow> string" where
  "formatMemories selected =
     ''<structured_memories>'' @ newline @
     concat (map (\<lambda>m. ''- ['' @ mem_Category m @ ''][''
                       @ (if mem_ChatID m = None then ''global'' else ''chat'')
                       @ ''] '' @ mem_Content m @ newline) selected) @
     ''</structured_memories>''"

definition BuildDBMemoryContext :: "Env \<Rightarrow> Effect list \<Rightarrow> int \<Rightarrow> string \<Rightarrow> int \<Rightarrow> string \<times> Effect list" where
  "BuildDBMemoryContext env tr chatID query tokenBudget =
     (if tokenBudget \<le> 0 then ([], tr)
      else case db_GetMemoriesForContext env tr chatID 100 of (memories, err) \<Rightarrow>
        if err \<noteq> None \<or> length memories = 0 then ([], tr)
        else
          (let candidates = map (\<lambda>m. \<lparr>mem = m, score = scoreOf env query m\<rparr>) memories;
               candidates = sortCandidates candidates
           in case selectLoop tokenBudget candidates ([], 0, 0, 0) of
                (selected, tokensUsed, selectedCount, omittedCount) \<Rightarrow>
                  if length selected = 0 then ([], tr)
                  else (formatMemories selected,
                        tr @ [LogMemoryInjectionCall chatID ''keyword'' (int (length candidates))
                                selectedCount omittedCount tokensUsed])))"


section \<open>Compaction (internal/agent/memory_context.go, CompactMessages)\<close>

definition summaryPrompt :: "Message list \<Rightarrow> string" where
  "summaryPrompt oldMessages =
     ''Summarize the following conversation concisely, preserving key facts, decisions, and context:''
     @ newline @ newline @
     concat (map (\<lambda>msg. let text = MessageToText msg
                         in if text \<noteq> [] then ''['' @ Role msg @ '']: '' @ text @ newline else [])
              oldMessages)"

definition summarizerSystem :: string where
  "summarizerSystem =
     ''You are a concise summarizer. Summarize the conversation preserving key context.''"

text \<open>
  The result is the pair of Go's two results, the message list and the error, with the
  effects. A negative \<open>keepRecent\<close> puts the split point beyond the length of the list,
  where the slice expression is out of range; configuration loading replaces a
  non-positive value by 20.
\<close>

definition CompactMessages ::
  "Env \<Rightarrow> Effect list \<Rightarrow> Message list \<Rightarrow> int \<Rightarrow> (AgentError + Message list \<times> string option) \<times> Effect list" where
  "CompactMessages env tr messages keepRecent =
     (if int (length messages) \<le> keepRecent then (Inr (messages, None), tr)
      else if keepRecent < 0 then (Inl SliceBoundsPanic, tr)
      else
        (let splitPoint = length messages - nat keepRecent;
             oldMessages = take splitPoint messages;
             recentMessages = drop splitPoint messages;
             request = [\<lparr>Role = ''user'', Content = TextContent (summaryPrompt oldMessages)\<rparr>];
             tr' = tr @ [SendMessageCall summarizerSystem request False]
         in case llm_SendMessage env tr summarizerSystem request False of
              Inl err \<Rightarrow> (Inr (messages, Some (''compaction LLM call: '' @ err)), tr')
            | Inr resp \<Rightarrow>
                (let summaryText = concat (map rb_Text
                       (filter (\<lambda>block. rb_Type block = ''text'') (resp_Content resp)))
                 in if summaryText = [] then (Inr (messages, None), tr')
                    else (Inr ([\<lparr>Role = ''user'', Content = TextContent
                                   (''[Previous conversation summary]'' @ newline @ summaryText @ newline
                                    @ ''[End of summary - conversation continues below]'')\<rparr>,
                                \<lparr>Role = ''assistant'', Content = TextContent
                                   ''Understood, I have the context from our previous conversation. Let's continue.''\<rparr>]
                               @ recentMessages, None), tr'))))"


section \<open>Agent engine (internal/agent/engine.go, ProcessWithEvents)\<close>

text \<open>Lines 45 to 59: the text to remember, when the fast path applies.\<close>

definition rememberCommand :: "Env \<Rightarrow> Effect list \<Rightarrow> AgentRequestContext \<Rightarrow> string option \<Rightarrow> string option" where
  "rememberCommand env tr reqCtx overridePrompt =
     (if overridePrompt = None then
        (case db_GetRecentMessages env tr (ChatID reqCtx) 1 of (msgs, err) \<Rightarrow>
           if err = None \<and> length msgs > 0 then
             (let lastMsg = last msgs
              in if \<not> sm_IsFromBot lastMsg \<and> prefix ''/remember:'' (ToLower (sm_Content lastMsg)) then
                   (let content = TrimSpace (drop (length ''/remember:'') (sm_Content lastMsg))
                    in if content \<noteq> [] then Some content else None)
                 else None)
           else None)
      else None)"

definition LoadMessagesFromDB ::
  "Env \<Rightarrow> Effect list \<Rightarrow> int \<Rightarrow> string \<Rightarrow> int \<Rightarrow> string \<Rightarrow> AgentError + Message list" where
  "LoadMessagesFromDB env tr chatID chatType maxHistory botUsername =
     (case (if chatType = ''group'' \<or> suffix ''_group'' chatType
            then db_GetMessagesSinceLastBotResponse env tr chatID maxHistory maxHistory
            else db_GetRecentMessages env tr chatID maxHistory) of
        (history, err) \<Rightarrow>
          (case err of
             Some e \<Rightarrow> Inl (LoadingHistoryError e)
           | None \<Rightarrow> Inr (HistoryToMessages history botUsername)))"

text \<open>Lines 61 to 104: the session if there is one, the stored history otherwise.\<close>

definition loadHistory ::
  "Env \<Rightarrow> Effect list \<Rightarrow> Config \<Rightarrow> AgentRequestContext \<Rightarrow> string option \<Rightarrow> AgentError + Message list" where
  "loadHistory env tr cfg reqCtx overridePrompt =
     (case LoadSession env tr (ChatID reqCtx) of
        (sessionMessages, sessionUpdatedAt, found, err) \<Rightarrow>
          if found \<and> length sessionMessages > 0 then
            (case overridePrompt of
               Some prompt \<Rightarrow> Inr (sessionMessages @ [\<lparr>Role = ''user'', Content = TextContent prompt\<rparr>])
             | None \<Rightarrow>
                 (case db_GetNewUserMessagesSince env tr (ChatID reqCtx) sessionUpdatedAt
                         (cfg_MaxHistoryMessages cfg) of
                    (newMsgs, dbErr) \<Rightarrow>
                      if length newMsgs > 0
                      then Inr (sessionMessages @ HistoryToMessages newMsgs (cfg_BotUsername cfg))
                      else Inr sessionMessages))
          else
            (case LoadMessagesFromDB env tr (ChatID reqCtx) (ChatType reqCtx)
                    (cfg_MaxHistoryMessages cfg) (cfg_BotUsername cfg) of
               Inl e \<Rightarrow> Inl e
             | Inr messages \<Rightarrow>
                 (case overridePrompt of
                    Some prompt \<Rightarrow> Inr (messages @ [\<lparr>Role = ''user'', Content = TextContent prompt\<rparr>])
                  | None \<Rightarrow> Inr messages)))"

text \<open>Lines 106 to 115.\<close>

definition attachImage :: "ImageData option \<Rightarrow> Message list \<Rightarrow> Message list" where
  "attachImage imageData messages =
     (case imageData of
        None \<Rightarrow> messages
      | Some img \<Rightarrow>
          if length messages > 0 \<and> Role (last messages) = ''user''
          then butlast messages @
                 [(last messages)\<lparr>Content := BlocksContent (Some
                     [ImageBlock (img_MediaType img) (img_Base64 img),
                      TextBlock (mc_Text (Content (last messages)))])\<rparr>]
          else messages)"

text \<open>Lines 117 to 126: a compaction error is logged and the messages stay as they are.\<close>

definition compactIfNeeded ::
  "Env \<Rightarrow> Effect list \<Rightarrow> Config \<Rightarrow> AgentRequestContext \<Rightarrow> Message list \<Rightarrow> (AgentError + Message list) \<times> Effect list" where
  "compactIfNeeded env tr cfg reqCtx messages =
     (if int (length messages) > cfg_MaxSessionMessages cfg then
        (let tr = tr @ [ArchiveConversationCall (CallerChannel reqCtx) (ChatID reqCtx) messages]
         in case CompactMessages env tr messages (cfg_CompactKeepRecent cfg) of
              (Inl panic, tr) \<Rightarrow> (Inl panic, tr)
            | (Inr (compacted, err), tr) \<Rightarrow>
                if err \<noteq> None then (Inr messages, tr) else (Inr compacted, tr))
      else (Inr messages, tr))"

text \<open>Lines 131 to 138: the text of the last user message.\<close>

definition lastUserQuery :: "Message list \<Rightarrow> string" where
  "lastUserQuery messages =
     (case filter (\<lambda>m. Role m = ''user'') (rev messages) of
        [] \<Rightarrow> []
      | m # _ \<Rightarrow> MessageToText m)"

definition nudgeMessage :: Message where
  "nudgeMessage = \<lparr>Role = ''user'', Content = TextContent
     ''Please provide a visible text answer to the user's request.''\<rparr>"

definition exhaustedNotice :: "Config \<Rightarrow> string" where
  "exhaustedNotice cfg =
     ''Reached maximum tool iterations ('' @ showInt (cfg_MaxToolIterations cfg)
     @ ''). The task may be partially complete.''"

definition logUsage :: "Effect list \<Rightarrow> AgentRequestContext \<Rightarrow> MessagesResponse \<Rightarrow> Effect list" where
  "logUsage tr reqCtx resp =
     (case resp_Usage resp of
        None \<Rightarrow> tr
      | Some u \<Rightarrow> tr @ [LogLLMUsageCall (ChatID reqCtx) (CallerChannel reqCtx)
                         (InputTokens u) (OutputTokens u)])"

text \<open>Lines 262 to 289: the tools run one after the other, in the order of the response.\<close>

fun executeTools :: "Env \<Rightarrow> Effect list \<Rightarrow> ResponseContentBlock list \<Rightarrow> Effect list \<times> ContentBlock list" where
  "executeTools env tr [] = (tr, [])"
| "executeTools env tr (tu # rest) =
     (let result = tools_ExecuteWithAuth env tr (rb_Name tu) (rb_Input tu);
          tr = tr @ [ExecuteWithAuthCall (rb_Name tu) (rb_Input tu)]
      in case executeTools env tr rest of
           (tr, resultBlocks) \<Rightarrow>
             (tr, ToolResultBlock (rb_ID tu) (tr_Content result) (tr_IsError result) # resultBlocks))"

text \<open>
  Lines 161 to 328, one pass through the body of the loop: either the function returns
  (\<open>Return\<close>, with its result and the effects), or control goes back to the loop head
  (\<open>Continue\<close>, with the new \<open>emptyVisibleRetried\<close>, messages and effects), by the
  \<open>continue\<close> of line 217 or by falling out of the \<open>tool_use\<close> case.
\<close>

datatype LoopStep =
    Continue bool "Message list" "Effect list"
  | Return "(AgentError + string) \<times> Effect list"

definition iterationBody ::
  "Env \<Rightarrow> AgentRequestContext \<Rightarrow> string \<Rightarrow> int \<Rightarrow> bool \<Rightarrow> Message list \<Rightarrow> Effect list \<Rightarrow> LoopStep" where
  "iterationBody env reqCtx systemPrompt iteration emptyVisibleRetried messages tr =
     (case ctx_Err env tr of
        Some e \<Rightarrow> Return (Inl (ContextError e), tr)
      | None \<Rightarrow>
         (case llm_SendMessage env tr systemPrompt messages True of
            Inl e \<Rightarrow> Return (Inl (LLMCallError iteration e),
                              tr @ [SendMessageCall systemPrompt messages True])
          | Inr resp \<Rightarrow>
             (let tr = logUsage (tr @ [SendMessageCall systemPrompt messages True]) reqCtx resp
              in if resp_StopReason resp = ''end_turn'' \<or> resp_StopReason resp = ''stop'' then
                   (let text = StripThinking (extractText resp)
                    in if TrimSpace text = [] \<and> \<not> emptyVisibleRetried then
                         Continue True
                           (messages @ [\<lparr>Role = ''assistant'', Content = responseToContent resp\<rparr>,
                                        nudgeMessage]) tr
                       else
                         Return (Inr text, snd (SaveSession env tr (ChatID reqCtx)
                            (messages @ [\<lparr>Role = ''assistant'', Content = responseToContent resp\<rparr>]))))
                 else if resp_StopReason resp = ''tool_use'' then
                   (let assistantBlocks = concat (map (\<lambda>block.
                          if rb_Type block = ''text''
                          then (if rb_Text block \<noteq> [] then [TextBlock (rb_Text block)] else [])
                          else if rb_Type block = ''tool_use''
                          then [ToolUseBlock (rb_ID block) (rb_Name block) (rb_Input block)]
                          else []) (resp_Content resp));
                        toolUses = filter (\<lambda>block. rb_Type block = ''tool_use'') (resp_Content resp);
                        messages = messages @
                          [\<lparr>Role = ''assistant'', Content = BlocksContent (appended assistantBlocks)\<rparr>]
                    in case executeTools env tr toolUses of
                         (tr, resultBlocks) \<Rightarrow>
                           Continue emptyVisibleRetried
                             (messages @ [\<lparr>Role = ''user'', Content = BlocksContent (appended resultBlocks)\<rparr>])
                             tr)
                 else if resp_StopReason resp = ''max_tokens'' then
                   (let text = StripThinking (extractText resp);
                        text = (if text = [] then ''(Response truncated due to max_tokens limit)'' else text)
                    in Return (Inr text, snd (SaveSession env tr (ChatID reqCtx)
                          (messages @ [\<lparr>Role = ''assistant'', Content = responseToContent resp\<rparr>]))))
                 else
                   (let text = StripThinking (extractText resp)
                    in Return (Inr text, snd (SaveSession env tr (ChatID reqCtx)
                          (messages @ [\<lparr>Role = ''assistant'', Content = responseToContent resp\<rparr>])))))))"

text \<open>
  Lines 161 to 332, the loop. The counter \<open>iteration\<close> grows by one on every path back
  to the loop head, so the loop is a recursion on the number of iterations that remain,
  \<open>cfg.MaxToolIterations - iteration\<close>; with none left, lines 330 to 332 run.
\<close>

fun agentLoop ::
  "Env \<Rightarrow> Config \<Rightarrow> AgentRequestContext \<Rightarrow> string \<Rightarrow> nat \<Rightarrow> int \<Rightarrow> bool \<Rightarrow> Message list \<Rightarrow> Effect list
     \<Rightarrow> (AgentError + string) \<times> Effect list" where
  "agentLoop env cfg reqCtx systemPrompt 0 iteration emptyVisibleRetried messages tr =
     (Inr (exhaustedNotice cfg), snd (SaveSession env tr (ChatID reqCtx) messages))"
| "agentLoop env cfg reqCtx systemPrompt (Suc remaining) iteration emptyVisibleRetried messages tr =
     (case iterationBody env reqCtx systemPrompt iteration emptyVisibleRetried messages tr of
        Return result \<Rightarrow> result
      | Continue emptyVisibleRetried messages tr \<Rightarrow>
          agentLoop env cfg reqCtx systemPrompt remaining (iteration + 1) emptyVisibleRetried messages tr)"

definition ProcessWithEvents ::
  "Env \<Rightarrow> Config \<Rightarrow> AgentRequestContext \<Rightarrow> string option \<Rightarrow> ImageData option \<Rightarrow> Effect list
     \<Rightarrow> (AgentError + string) \<times> Effect list" where
  "ProcessWithEvents env cfg reqCtx overridePrompt imageData tr =
     (case rememberCommand env tr reqCtx overridePrompt of
        Some content \<Rightarrow>
          (Inr ''Remembered.'',
           tr @ [InsertMemoryWithMetadataCall (Some (ChatID reqCtx)) content ''KNOWLEDGE''
                   ''user_explicit'' 0.95])
      | None \<Rightarrow>
          (case loadHistory env tr cfg reqCtx overridePrompt of
             Inl e \<Rightarrow> (Inl e, tr)
           | Inr messages \<Rightarrow>
               (case compactIfNeeded env tr cfg reqCtx (attachImage imageData messages) of
                  (Inl panic, tr) \<Rightarrow> (Inl panic, tr)
                | (Inr messages, tr) \<Rightarrow>
                    (case BuildDBMemoryContext env tr (ChatID reqCtx) (lastUserQuery messages)
                            (cfg_MemoryTokenBudget cfg) of
                       (memoryContext, tr) \<Rightarrow>
                         agentLoop env cfg reqCtx (BuildSystemPrompt env memoryContext)
                           (nat (cfg_MaxToolIterations cfg)) 0 False messages tr))))"


text \<open>
  The message lists handed to the provider, in the order of the calls; their number is
  the number of model calls.
\<close>

fun sentMessages :: "Effect list \<Rightarrow> Message list list" where
  "sentMessages [] = []"
| "sentMessages (e # es) =
     (case e of SendMessageCall system messages tools \<Rightarrow> [messages] | _ \<Rightarrow> []) @ sentMessages es"


text \<open>The calls of the database's \<open>SaveSession\<close>, in order: chat id and message list.\<close>

fun savedSessions :: "Effect list \<Rightarrow> (int \<times> Message list) list" where
  "savedSessions [] = []"
| "savedSessions (e # es) =
     (case e of SaveSessionCall chatID messages \<Rightarrow> [(chatID, messages)] | _ \<Rightarrow> []) @ savedSessions es"

text \<open>
  How many more nudge messages the loop can still add: one while \<open>emptyVisibleRetried\<close>
  is unset, none afterwards.
\<close>

definition nudgeSlack :: "bool \<Rightarrow> Message list \<Rightarrow> nat" where
  "nudgeSlack retried messages = count_list messages nudgeMessage + (if retried then 0 else 1)"


section \<open>Scenarios\<close>

text \<open>
  A quiet outside world, used to run the agent on concrete inputs: an empty database, a
  provider that answers \<open>ok\<close> and ends the turn, tools that succeed, no cancellation.
  The score of a memory is its confidence, which is what lines 30 to 50 compute, without
  any arithmetic, when no query word matches and the confidence is below 0.8.
\<close>

definition quietEnv :: Env where
  "quietEnv =
     \<lparr>db_GetRecentMessages = (\<lambda>tr chatID limit. ([], None)),
      db_GetMessagesSinceLastBotResponse = (\<lambda>tr chatID mx fallback. ([], None)),
      db_GetNewUserMessagesSince = (\<lambda>tr chatID since limit. ([], None)),
      db_GetMemoriesForContext = (\<lambda>tr chatID limit. ([], None)),
      LoadSession = (\<lambda>tr chatID. ([], [], False, None)),
      llm_SendMessage = (\<lambda>tr system messages tools.
        Inr \<lparr>resp_Content = [\<lparr>rb_Type = ''text'', rb_Text = ''ok'', rb_ID = [], rb_Name = [], rb_Input = None\<rparr>],
             resp_StopReason = ''end_turn'', resp_Usage = None\<rparr>),
      tools_ExecuteWithAuth = (\<lambda>tr name input. \<lparr>tr_Content = ''done'', tr_IsError = False\<rparr>),
      ctx_Err = (\<lambda>tr. None),
      json_Valid = (\<lambda>raw. True),
      scoreOf = (\<lambda>query m. mem_Confidence m),
      BuildSystemPrompt = (\<lambda>memoryContext. ''You are a helpful AI assistant.'' @ memoryContext)\<rparr>"

definition defaultConfig :: Config where
  "defaultConfig =
     \<lparr>cfg_BotUsername = ''bot'', cfg_MaxToolIterations = 100, cfg_MaxHistoryMessages = 50,
      cfg_MaxSessionMessages = 40, cfg_CompactKeepRecent = 20, cfg_MemoryTokenBudget = 1500\<rparr>"

definition chat7 :: AgentRequestContext where
  "chat7 = \<lparr>CallerChannel = ''web'', ChatID = 7, ChatType = ''private''\<rparr>"

definition memory :: "int \<Rightarrow> string \<Rightarrow> real \<Rightarrow> Memory" where
  "memory ident content confidence =
     \<lparr>mem_ID = ident, mem_ChatID = Some 7, mem_Content = content, mem_Category = ''KNOWLEDGE'',
      mem_Confidence = confidence\<rparr>"

text \<open>A provider that asks for the tool \<open>echo\<close> at every call.\<close>

definition toolEnv :: Env where
  "toolEnv = quietEnv\<lparr>llm_SendMessage := (\<lambda>tr system messages tools.
      Inr \<lparr>resp_Content = [\<lparr>rb_Type = ''tool_use'', rb_Text = [], rb_ID = ''t1'', rb_Name = ''echo'',
                              rb_Input = Some ''{}''\<rparr>],
           resp_StopReason = ''tool_use'', resp_Usage = None\<rparr>)\<rparr>"


text \<open>
  A provider of that kind whose tool input is not valid JSON (the OpenAI provider passes
  the arguments string of the model on as it is), with a JSON check that rejects it.
\<close>

definition badInputEnv :: Env where
  "badInputEnv = quietEnv\<lparr>llm_SendMessage := (\<lambda>tr system messages tools.
      Inr \<lparr>resp_Content = [\<lparr>rb_Type = ''tool_use'', rb_Text = [], rb_ID = ''t1'', rb_Name = ''echo'',
                              rb_Input = Some ''{bad''\<rparr>],
           resp_StopReason = ''tool_use'', resp_Usage = None\<rparr>),
      json_Valid := (\<lambda>raw. raw \<noteq> ''{bad'')\<rparr>"


text \<open>A chat whose most recent stored message is a remember command.\<close>

definition rememberEnv :: Env where
  "rememberEnv = quietEnv\<lparr>db_GetRecentMessages := (\<lambda>tr chatID limit.
      ([\<lparr>sm_ID = ''m1'', sm_ChatID = 7, sm_SenderName = ''ann'', sm_Content = ''/Remember: buy milk '',
         sm_IsFromBot = False, sm_Timestamp = ''2026-01-01T00:00:00Z''\<rparr>], None))\<rparr>"

text \<open>A chat without a session whose stored history is one message from a user.\<close>

definition historyEnv :: Env where
  "historyEnv = quietEnv\<lparr>db_GetRecentMessages := (\<lambda>tr chatID limit.
      ([\<lparr>sm_ID = ''m1'', sm_ChatID = 7, sm_SenderName = ''ann'', sm_Content = ''hello'',
         sm_IsFromBot = False, sm_Timestamp = ''2026-01-01T00:00:00Z''\<rparr>], None))\<rparr>"

text \<open>A database with two memories for the chat.\<close>

definition memEnv :: Env where
  "memEnv = quietEnv\<lparr>db_GetMemoriesForContext := (\<lambda>tr chatID limit.
      ([memory 1 ''prefers long walks on the beach at dawn'' 0.75, memory 2 ''owns a cat'' 0.5], None))\<rparr>"


section \<open>Sanitizer: properties\<close>

lemma toolUseIDs_append: "toolUseIDs (xs @ ys) = toolUseIDs xs \<union> toolUseIDs ys"
  by (induction xs) auto

lemma removeOrphans_append:
  "removeOrphans ids (xs @ ys) = removeOrphans ids xs @ removeOrphans ids ys"
  by (induction xs) (auto simp: Let_def)

lemma removeOrphans_user_blocks:
  assumes "m' \<in> set (removeOrphans ids msgs)" and "Role m' = ''user''"
    and "b \<in> set (blocks_of (Content m'))" and "cb_Type b = ''tool_result''"
  shows "cb_ToolUseID b \<in> ids"
  using assms
proof (induction msgs)
  case Nil
  then show ?case by simp
next
  case (Cons msg rest)
  show ?case
  proof (cases "Role msg = ''user'' \<and> IsBlocks (Content msg)")
    case True
    with Cons show ?thesis
      by (auto simp: Let_def BlocksContent_def appended_def blocks_of_def split: if_splits)
  next
    case False
    with Cons show ?thesis
      by (auto simp: IsBlocks_def blocks_of_def split: option.splits)
  qed
qed

lemma mergeSameRole_blocks:
  "m' \<in> set (mergeSameRole merged xs) \<Longrightarrow>
     mc_Blocks (Content m') = None \<or> m' \<in> set merged \<union> set xs"
proof (induction xs arbitrary: merged)
  case Nil
  then show ?case by simp
next
  case (Cons msg rest)
  show ?case
  proof (cases "length merged > 0 \<and> Role (last merged) = Role msg")
    case False
    with Cons.prems have "m' \<in> set (mergeSameRole (merged @ [msg]) rest)" by auto
    from Cons.IH [OF this] show ?thesis by auto
  next
    case True
    show ?thesis
    proof (cases "messageToText (last merged) \<noteq> [] \<or> messageToText msg \<noteq> []")
      case False
      with True Cons.prems have "m' \<in> set (mergeSameRole merged rest)" by (auto simp: Let_def)
      from Cons.IH [OF this] show ?thesis by auto
    next
      case nonempty: True
      with True Cons.prems obtain c where
        "m' \<in> set (mergeSameRole (butlast merged @ [(last merged)\<lparr>Content := TextContent c\<rparr>]) rest)"
        by (auto simp: Let_def split: if_splits)
      from Cons.IH [OF this] show ?thesis
        by (auto simp: TextContent_def dest: in_set_butlastD)
    qed
  qed
qed


text \<open>
  Claim C1 (sanitization is idempotent) fails on the code. An assistant message with a
  \<open>tool_use\<close> block, an assistant text message and the user message with the matching
  \<open>tool_result\<close>: the first pass keeps the result, since its id is in the list, and then
  merges the two assistant messages into text, which loses the \<open>tool_use\<close> block. The
  output holds a \<open>tool_result\<close> without a \<open>tool_use\<close>, and a second pass removes it.
\<close>

theorem SanitizeMessages_second_pass_differs:
  "SanitizeMessages
     [\<lparr>Role = ''assistant'', Content = BlocksContent (Some [ToolUseBlock ''A'' ''echo'' (Some ''{}'')])\<rparr>,
      \<lparr>Role = ''assistant'', Content = TextContent ''hi''\<rparr>,
      \<lparr>Role = ''user'', Content = BlocksContent (Some [ToolResultBlock ''A'' ''ok'' False])\<rparr>]
   = [\<lparr>Role = ''assistant'', Content = TextContent ''hi''\<rparr>,
      \<lparr>Role = ''user'', Content = BlocksContent (Some [ToolResultBlock ''A'' ''ok'' False])\<rparr>]
   \<and>
   SanitizeMessages
     [\<lparr>Role = ''assistant'', Content = TextContent ''hi''\<rparr>,
      \<lparr>Role = ''user'', Content = BlocksContent (Some [ToolResultBlock ''A'' ''ok'' False])\<rparr>]
   = [\<lparr>Role = ''assistant'', Content = TextContent ''hi''\<rparr>]
   \<and>
   SanitizeMessages (SanitizeMessages
     [\<lparr>Role = ''assistant'', Content = BlocksContent (Some [ToolUseBlock ''A'' ''echo'' (Some ''{}'')])\<rparr>,
      \<lparr>Role = ''assistant'', Content = TextContent ''hi''\<rparr>,
      \<lparr>Role = ''user'', Content = BlocksContent (Some [ToolResultBlock ''A'' ''ok'' False])\<rparr>])
   \<noteq>
   SanitizeMessages
     [\<lparr>Role = ''assistant'', Content = BlocksContent (Some [ToolUseBlock ''A'' ''echo'' (Some ''{}'')])\<rparr>,
      \<lparr>Role = ''assistant'', Content = TextContent ''hi''\<rparr>,
      \<lparr>Role = ''user'', Content = BlocksContent (Some [ToolResultBlock ''A'' ''ok'' False])\<rparr>]"
  by (simp add: SanitizeMessages_def IsBlocks_def BlocksContent_def TextContent_def blocks_of_def
        ToolUseBlock_def ToolResultBlock_def emptyBlock_def appended_def messageToText_def)


text \<open>
  Claim C5 as stated, for a \<open>tool_result\<close> block in any message, fails: only user
  messages are filtered, and an orphan block in an assistant message stays.
\<close>

theorem orphan_in_assistant_message_survives:
  "cb_Type (ToolResultBlock ''X'' ''out'' False) = ''tool_result''
   \<and> cb_ToolUseID (ToolResultBlock ''X'' ''out'' False)
        \<notin> toolUseIDs [\<lparr>Role = ''assistant'', Content = BlocksContent (Some [ToolResultBlock ''X'' ''out'' False])\<rparr>]
   \<and> SanitizeMessages
        [\<lparr>Role = ''assistant'', Content = BlocksContent (Some [ToolResultBlock ''X'' ''out'' False])\<rparr>]
      = [\<lparr>Role = ''assistant'', Content = BlocksContent (Some [ToolResultBlock ''X'' ''out'' False])\<rparr>]"
  by (simp add: SanitizeMessages_def IsBlocks_def BlocksContent_def blocks_of_def
        ToolResultBlock_def emptyBlock_def)


text \<open>
  Claim C5, amended to user messages: a \<open>tool_result\<close> block of a user message whose id
  is the id of no \<open>tool_use\<close> block of an assistant message occurs in no user message of
  the output; and when it is the only block of its message, the output is the output for
  the list without that message.
\<close>

theorem SanitizeMessages_drops_user_orphans:
  assumes "Role m = ''user''" and "b \<in> set (blocks_of (Content m))"
    and "cb_Type b = ''tool_result''" and "cb_ToolUseID b \<notin> toolUseIDs (pre @ m # post)"
  shows "(\<forall>m' \<in> set (SanitizeMessages (pre @ m # post)).
            Role m' = ''user'' \<longrightarrow> b \<notin> set (blocks_of (Content m')))
         \<and> (blocks_of (Content m) = [b] \<longrightarrow>
              SanitizeMessages (pre @ m # post) = SanitizeMessages (pre @ post))"
proof
  let ?ms = "pre @ m # post"
  show "\<forall>m' \<in> set (SanitizeMessages ?ms). Role m' = ''user'' \<longrightarrow> b \<notin> set (blocks_of (Content m'))"
  proof (intro ballI impI notI)
    fix m'
    assume in_out: "m' \<in> set (SanitizeMessages ?ms)" and user: "Role m' = ''user''"
      and has: "b \<in> set (blocks_of (Content m'))"
    from in_out have "m' \<in> set (mergeSameRole [] (removeOrphans (toolUseIDs ?ms) ?ms))"
      by (simp add: SanitizeMessages_def)
    from mergeSameRole_blocks [OF this] has
    have "m' \<in> set (removeOrphans (toolUseIDs ?ms) ?ms)"
      by (auto simp: blocks_of_def)
    from removeOrphans_user_blocks [OF this user has assms(3)] assms(4)
    show False by simp
  qed
next
  show "blocks_of (Content m) = [b] \<longrightarrow>
          SanitizeMessages (pre @ m # post) = SanitizeMessages (pre @ post)"
  proof
    assume only: "blocks_of (Content m) = [b]"
    then have isb: "IsBlocks (Content m)"
      by (auto simp: blocks_of_def IsBlocks_def split: option.splits)
    have ids: "toolUseIDs (pre @ m # post) = toolUseIDs (pre @ post)"
      using assms(1) by (simp add: toolUseIDs_append)
    have "removeOrphans (toolUseIDs (pre @ m # post)) [m] = []"
      using assms only isb by (simp add: Let_def)
    then have "removeOrphans (toolUseIDs (pre @ m # post)) (pre @ m # post)
                 = removeOrphans (toolUseIDs (pre @ post)) (pre @ post)"
      using removeOrphans_append [of "toolUseIDs (pre @ m # post)" pre "[m] @ post"]
            removeOrphans_append [of "toolUseIDs (pre @ m # post)" "[m]" post]
      by (simp add: ids removeOrphans_append)
    then show "SanitizeMessages (pre @ m # post) = SanitizeMessages (pre @ post)"
      by (simp add: SanitizeMessages_def)
  qed
qed


theorem SanitizeMessages_drops_user_orphans_witness:
  "Role \<lparr>Role = ''user'', Content = BlocksContent (Some [ToolResultBlock ''Z'' ''stale'' False])\<rparr> = ''user''
   \<and> ToolResultBlock ''Z'' ''stale'' False
       \<in> set (blocks_of (Content \<lparr>Role = ''user'', Content = BlocksContent (Some [ToolResultBlock ''Z'' ''stale'' False])\<rparr>))
   \<and> cb_Type (ToolResultBlock ''Z'' ''stale'' False) = ''tool_result''
   \<and> cb_ToolUseID (ToolResultBlock ''Z'' ''stale'' False)
       \<notin> toolUseIDs ([\<lparr>Role = ''assistant'', Content = TextContent ''hello''\<rparr>]
            @ \<lparr>Role = ''user'', Content = BlocksContent (Some [ToolResultBlock ''Z'' ''stale'' False])\<rparr>
            # [\<lparr>Role = ''user'', Content = TextContent ''bye''\<rparr>])
   \<and> SanitizeMessages ([\<lparr>Role = ''assistant'', Content = TextContent ''hello''\<rparr>]
            @ \<lparr>Role = ''user'', Content = BlocksContent (Some [ToolResultBlock ''Z'' ''stale'' False])\<rparr>
            # [\<lparr>Role = ''user'', Content = TextContent ''bye''\<rparr>])
     = SanitizeMessages ([\<lparr>Role = ''assistant'', Content = TextContent ''hello''\<rparr>]
            @ [\<lparr>Role = ''user'', Content = TextContent ''bye''\<rparr>])"
proof -
  let ?m = "\<lparr>Role = ''user'', Content = BlocksContent (Some [ToolResultBlock ''Z'' ''stale'' False])\<rparr>"
  let ?b = "ToolResultBlock ''Z'' ''stale'' False"
  let ?pre = "[\<lparr>Role = ''assistant'', Content = TextContent ''hello''\<rparr>]"
  let ?post = "[\<lparr>Role = ''user'', Content = TextContent ''bye''\<rparr>]"
  have h1: "Role ?m = ''user''" by simp
  have h2: "?b \<in> set (blocks_of (Content ?m))" by (simp add: blocks_of_def BlocksContent_def)
  have h3: "cb_Type ?b = ''tool_result''" by (simp add: ToolResultBlock_def emptyBlock_def)
  have h4: "cb_ToolUseID ?b \<notin> toolUseIDs (?pre @ ?m # ?post)"
    by (simp add: IsBlocks_def TextContent_def)
  have h5: "blocks_of (Content ?m) = [?b]" by (simp add: blocks_of_def BlocksContent_def)
  from SanitizeMessages_drops_user_orphans [OF h1 h2 h3 h4] h5
  have "SanitizeMessages (?pre @ ?m # ?post) = SanitizeMessages (?pre @ ?post)" by blast
  with h1 h2 h3 h4 show ?thesis by blast
qed


section \<open>Persistence: properties\<close>

lemma StripImagesForSession_no_image:
  "msg \<in> set (StripImagesForSession messages) \<Longrightarrow> b \<in> set (blocks_of (Content msg)) \<Longrightarrow>
     cb_Type b \<noteq> ''image''"
  by (auto simp: StripImagesForSession_def Let_def blocks_of_def IsBlocks_def TextContent_def
        BlocksContent_def appended_def split: if_splits option.splits)


text \<open>
  Claim C9: what \<open>SaveSession\<close> hands to the database is the stripped list (or nothing,
  when the encoding fails), and no block of the stripped list has type \<open>image\<close>.
\<close>

theorem SaveSession_persists_no_image:
  "snd (SaveSession env tr chatID messages) =
     (if marshalOK env (StripImagesForSession messages)
      then tr @ [SaveSessionCall chatID (StripImagesForSession messages)] else tr)
   \<and> (\<forall>msg \<in> set (StripImagesForSession messages).
         \<forall>b \<in> set (blocks_of (Content msg)). cb_Type b \<noteq> ''image'')"
  using StripImagesForSession_no_image by (auto simp: SaveSession_def Let_def)


theorem SaveSession_persists_no_image_witness:
  "snd (SaveSession quietEnv [] 7
          [\<lparr>Role = ''user'', Content = BlocksContent (Some [ImageBlock ''image/png'' ''AAAA'', TextBlock ''look''])\<rparr>])
     = [SaveSessionCall 7 [\<lparr>Role = ''user'', Content = BlocksContent (Some [TextBlock ''look''])\<rparr>]]
   \<and> StripImagesForSession
          [\<lparr>Role = ''user'', Content = BlocksContent (Some [ImageBlock ''image/png'' ''AAAA'', TextBlock ''look''])\<rparr>]
     = [\<lparr>Role = ''user'', Content = BlocksContent (Some [TextBlock ''look''])\<rparr>]"
  using SaveSession_persists_no_image [of quietEnv "[]" 7
          "[\<lparr>Role = ''user'', Content = BlocksContent (Some [ImageBlock ''image/png'' ''AAAA'', TextBlock ''look''])\<rparr>]"]
  by (simp add: StripImagesForSession_def marshalOK_def quietEnv_def IsBlocks_def BlocksContent_def
        blocks_of_def ImageBlock_def TextBlock_def emptyBlock_def appended_def)


section \<open>Memory context ranker: properties\<close>

lemma mset_swapAt: "i < length xs \<Longrightarrow> j < length xs \<Longrightarrow> mset (swapAt i j xs) = mset xs"
  unfolding swapAt_def by (rule mset_swap)

lemma sortStep_props:
  assumes "i < j" and "j < length ys"
  shows "length (sortStep i j ys) = length ys"
    and "mset (sortStep i j ys) = mset ys"
    and "take i (sortStep i j ys) = take i ys"
    and "score (sortStep i j ys ! j) \<le> score (sortStep i j ys ! i)"
    and "score (ys ! i) \<le> score (sortStep i j ys ! i)"
    and "\<And>k. k \<noteq> i \<Longrightarrow> k \<noteq> j \<Longrightarrow> sortStep i j ys ! k = ys ! k"
  using assms by (auto simp: sortStep_def swapAt_def mset_swap)

lemma inner_invariant:
  assumes "i < length xs" and "i + 1 \<le> j" and "j \<le> length xs"
  defines "ys \<equiv> fold (sortStep i) [i + 1 ..< j] xs"
  shows "length ys = length xs \<and> mset ys = mset xs \<and> take i ys = take i xs
         \<and> (\<forall>k. i < k \<and> k < j \<longrightarrow> score (ys ! k) \<le> score (ys ! i))"
  unfolding ys_def using assms(2,3)
proof (induction j)
  case 0
  then show ?case by simp
next
  case (Suc j)
  show ?case
  proof (cases "i + 1 \<le> j")
    case False
    with Suc.prems have "j = i" by simp
    then show ?thesis by simp
  next
    case True
    let ?ys = "fold (sortStep i) [i + 1 ..< j] xs"
    from True Suc have IH: "length ?ys = length xs" "mset ?ys = mset xs" "take i ?ys = take i xs"
      "\<forall>k. i < k \<and> k < j \<longrightarrow> score (?ys ! k) \<le> score (?ys ! i)"
      by auto
    have ij: "i < j" using True by simp
    have jl: "j < length ?ys" using Suc.prems IH(1) by simp
    have unf: "fold (sortStep i) [i + 1 ..< Suc j] xs = sortStep i j ?ys"
      using True by (simp add: upt_Suc_append del: upt_Suc)
    note P = sortStep_props [OF ij jl]
    have "\<forall>k. i < k \<and> k < Suc j \<longrightarrow> score (sortStep i j ?ys ! k) \<le> score (sortStep i j ?ys ! i)"
    proof (intro allI impI)
      fix k assume k: "i < k \<and> k < Suc j"
      show "score (sortStep i j ?ys ! k) \<le> score (sortStep i j ?ys ! i)"
      proof (cases "k = j")
        case True
        then show ?thesis using P(4) by simp
      next
        case False
        with k have "k < j" "k \<noteq> i" by auto
        then have "sortStep i j ?ys ! k = ?ys ! k" using P(6) False by simp
        moreover have "score (?ys ! k) \<le> score (?ys ! i)" using IH(4) k \<open>k < j\<close> by simp
        ultimately show ?thesis using P(5) by simp
      qed
    qed
    then show ?thesis
      unfolding unf using P(1,2,3) IH(1,2,3) by simp
  qed
qed

lemma sortInner_props:
  assumes "i < length xs"
  shows "length (sortInner i xs) = length xs"
    and "mset (sortInner i xs) = mset xs"
    and "take i (sortInner i xs) = take i xs"
    and "\<And>k. i < k \<Longrightarrow> k < length xs \<Longrightarrow> score (sortInner i xs ! k) \<le> score (sortInner i xs ! i)"
  using inner_invariant [OF assms, of "length xs"] assms
  by (auto simp: sortInner_def)

lemma sortInner_tail:
  assumes "i < length xs" and "i \<le> b" and "b < length xs"
  shows "\<exists>b'. i \<le> b' \<and> b' < length xs \<and> sortInner i xs ! b = xs ! b'"
proof -
  let ?zs = "sortInner i xs"
  note P = sortInner_props [OF assms(1)]
  have "mset (take i ?zs) + mset (drop i ?zs) = mset (take i xs) + mset (drop i xs)"
    using P(2) by (metis append_take_drop_id mset_append)
  then have "mset (drop i ?zs) = mset (drop i xs)" using P(3) by simp
  then have "set (drop i ?zs) = set (drop i xs)" by (rule mset_eq_setD)
  moreover have "?zs ! b \<in> set (drop i ?zs)"
    using assms P(1) by (auto simp: in_set_conv_nth intro!: exI [of _ "b - i"])
  ultimately have "?zs ! b \<in> set (drop i xs)" by simp
  then obtain n where "n < length xs - i" "drop i xs ! n = ?zs ! b"
    by (auto simp: in_set_conv_nth)
  then show ?thesis
    using assms by (intro exI [of _ "i + n"]) auto
qed

lemma outer_invariant:
  assumes "m \<le> length xs"
  defines "ys \<equiv> fold sortInner [0 ..< m] xs"
  shows "length ys = length xs \<and> mset ys = mset xs
         \<and> (\<forall>a b. a < m \<and> a < b \<and> b < length xs \<longrightarrow> score (ys ! b) \<le> score (ys ! a))"
  unfolding ys_def using assms(1)
proof (induction m)
  case 0
  then show ?case by simp
next
  case (Suc m)
  let ?ys = "fold sortInner [0 ..< m] xs"
  from Suc have IH: "length ?ys = length xs" "mset ?ys = mset xs"
    "\<forall>a b. a < m \<and> a < b \<and> b < length xs \<longrightarrow> score (?ys ! b) \<le> score (?ys ! a)"
    by auto
  have ml: "m < length ?ys" using Suc.prems IH(1) by simp
  note P = sortInner_props [OF ml]
  have unf: "fold sortInner [0 ..< Suc m] xs = sortInner m ?ys" by simp
  have "\<forall>a b. a < Suc m \<and> a < b \<and> b < length xs \<longrightarrow>
          score (sortInner m ?ys ! b) \<le> score (sortInner m ?ys ! a)"
  proof (intro allI impI)
    fix a b assume ab: "a < Suc m \<and> a < b \<and> b < length xs"
    show "score (sortInner m ?ys ! b) \<le> score (sortInner m ?ys ! a)"
    proof (cases "a = m")
      case True
      then show ?thesis using P(4) [of b] ab IH(1) by simp
    next
      case False
      with ab have am: "a < m" by simp
      have "sortInner m ?ys ! a = take m (sortInner m ?ys) ! a" using am by simp
      also have "\<dots> = ?ys ! a" using P(3) am by simp
      finally have ea: "sortInner m ?ys ! a = ?ys ! a" .
      show ?thesis
      proof (cases "b < m")
        case True
        have "sortInner m ?ys ! b = take m (sortInner m ?ys) ! b" using True by simp
        also have "\<dots> = ?ys ! b" using P(3) True by simp
        finally show ?thesis using ea IH(3) am ab by simp
      next
        case False
        then have "m \<le> b" by simp
        from sortInner_tail [OF ml this] ab IH(1)
        obtain b' where "m \<le> b'" "b' < length xs" "sortInner m ?ys ! b = ?ys ! b'" by auto
        then show ?thesis using ea IH(3) am by simp
      qed
    qed
  qed
  then show ?case unfolding unf using P(1,2) IH(1,2) by simp
qed


lemma length_sortCandidates: "length (sortCandidates candidates) = length candidates"
  using outer_invariant [of "length candidates - 1" candidates]
  by (simp add: sortCandidates_def)

text \<open>
  Claim C3 as stated fails in its second half: the exchange sort is not stable. Three
  candidates fetched in the order A, B, C with scores 0.5, 0.5 and 0.75 (the scores of
  memories with these confidences when no query word matches): the pass for position 0
  exchanges A with C, and B now stands before A.
\<close>

theorem sortCandidates_not_stable:
  "sortCandidates
     [\<lparr>mem = memory 1 ''likes tea'' 0.5, score = 0.5\<rparr>,
      \<lparr>mem = memory 2 ''owns a cat'' 0.5, score = 0.5\<rparr>,
      \<lparr>mem = memory 3 ''lives in Oslo'' 0.75, score = 0.75\<rparr>]
   = [\<lparr>mem = memory 3 ''lives in Oslo'' 0.75, score = 0.75\<rparr>,
      \<lparr>mem = memory 2 ''owns a cat'' 0.5, score = 0.5\<rparr>,
      \<lparr>mem = memory 1 ''likes tea'' 0.5, score = 0.5\<rparr>]"
  by (simp add: sortCandidates_def sortInner_def sortStep_def swapAt_def upt_rec)

text \<open>
  Claim C3, amended: the sorted candidates are in descending order of score and are a
  permutation of the fetched candidates; the order of candidates with equal scores is
  not fixed by the fetch order.
\<close>

theorem sortCandidates_descending_permutation:
  "sorted_wrt (\<lambda>x y. score x \<ge> score y) (sortCandidates candidates)
   \<and> mset (sortCandidates candidates) = mset candidates"
proof -
  have le: "length candidates - 1 \<le> length candidates" by simp
  note I = outer_invariant [OF le]
  have "\<And>i j. i < j \<Longrightarrow> j < length candidates \<Longrightarrow>
          score (sortCandidates candidates ! j) \<le> score (sortCandidates candidates ! i)"
    using I by (auto simp: sortCandidates_def)
  then have "sorted_wrt (\<lambda>x y. score x \<ge> score y) (sortCandidates candidates)"
    using I by (auto simp: sorted_wrt_iff_nth_less sortCandidates_def)
  then show ?thesis using I by (simp add: sortCandidates_def)
qed

lemma selectLoop_invariant:
  assumes "selectLoop budget cs (sel, used, n, om) = (sel', used', n', om')"
    and "n = int (length sel)" and "used = sum_list (map estimate sel)"
    and "length sel \<le> 1 \<or> used \<le> budget"
  shows "n' = int (length sel') \<and> used' = sum_list (map estimate sel')
         \<and> (length sel' \<le> 1 \<or> used' \<le> budget)
         \<and> n' + om' = n + om + int (length cs)
         \<and> (if sel = [] then (case cs of [] \<Rightarrow> sel' = [] | c # _ \<Rightarrow> sel' \<noteq> [] \<and> hd sel' = mem c)
             else sel' \<noteq> [] \<and> hd sel' = hd sel)"
  using assms
proof (induction cs arbitrary: sel used n om)
  case Nil
  then show ?case by auto
next
  case (Cons c cs)
  have est: "0 \<le> estimate (mem c)" by (simp add: estimate_def)
  show ?case
  proof (cases "used + estimate (mem c) > budget \<and> n > 0")
    case True
    with Cons.prems have run: "selectLoop budget cs (sel, used, n, om + 1) = (sel', used', n', om')"
      by (simp add: Let_def)
    from True Cons.prems have "sel \<noteq> []" by auto
    with Cons.IH [OF run Cons.prems(2,3,4)] show ?thesis by auto
  next
    case False
    with Cons.prems have run:
      "selectLoop budget cs (sel @ [mem c], used + estimate (mem c), n + 1, om) = (sel', used', n', om')"
      by (auto simp: Let_def)
    have a: "n + 1 = int (length (sel @ [mem c]))" using Cons.prems by simp
    have b: "used + estimate (mem c) = sum_list (map estimate (sel @ [mem c]))"
      using Cons.prems by simp
    have c: "length (sel @ [mem c]) \<le> 1 \<or> used + estimate (mem c) \<le> budget"
      using False Cons.prems by auto
    from Cons.IH [OF run a b c] show ?thesis
      by (cases sel) auto
  qed
qed


text \<open>
  Claim C4: the selection loop keeps the sum of the estimates within the budget, unless
  the selection is the first candidate alone, which is admitted whatever its estimate;
  the selection is not empty when there is a candidate, and \<open>BuildDBMemoryContext\<close> then
  returns a block when the budget is positive.
\<close>

theorem selection_respects_budget:
  "(case selectLoop tokenBudget candidates ([], 0, 0, 0) of
      (selected, tokensUsed, selectedCount, omittedCount) \<Rightarrow>
        tokensUsed = sum_list (map estimate selected)
        \<and> selectedCount = int (length selected)
        \<and> selectedCount + omittedCount = int (length candidates)
        \<and> (candidates = [] \<longrightarrow> selected = [])
        \<and> (candidates \<noteq> [] \<longrightarrow>
             selected \<noteq> [] \<and> hd selected = mem (hd candidates)
             \<and> (tokensUsed \<le> tokenBudget \<or> selected = [mem (hd candidates)])))
   \<and> (0 < tokenBudget \<and> db_GetMemoriesForContext env tr chatID 100 = (memories, None)
        \<and> memories \<noteq> [] \<longrightarrow>
          fst (BuildDBMemoryContext env tr chatID query tokenBudget) \<noteq> [])"
proof
  obtain sel used n om where run: "selectLoop tokenBudget candidates ([], 0, 0, 0) = (sel, used, n, om)"
    by (cases "selectLoop tokenBudget candidates ([], 0, 0, 0)") auto
  from selectLoop_invariant [OF run] have I:
    "n = int (length sel)" "used = sum_list (map estimate sel)"
    "length sel \<le> 1 \<or> used \<le> tokenBudget" "n + om = int (length candidates)"
    "case candidates of [] \<Rightarrow> sel = [] | c # _ \<Rightarrow> sel \<noteq> [] \<and> hd sel = mem c"
    by auto
  have "candidates \<noteq> [] \<longrightarrow> sel \<noteq> [] \<and> hd sel = mem (hd candidates)
          \<and> (used \<le> tokenBudget \<or> sel = [mem (hd candidates)])"
  proof
    assume ne: "candidates \<noteq> []"
    with I(5) have h: "sel \<noteq> []" "hd sel = mem (hd candidates)"
      by (auto split: list.splits)
    show "sel \<noteq> [] \<and> hd sel = mem (hd candidates) \<and> (used \<le> tokenBudget \<or> sel = [mem (hd candidates)])"
    proof (cases "used \<le> tokenBudget")
      case True
      with h show ?thesis by simp
    next
      case False
      with I(3) h have "length sel = 1" by (cases sel) auto
      with h have "sel = [mem (hd candidates)]" by (cases sel) auto
      with h show ?thesis by simp
    qed
  qed
  moreover have "candidates = [] \<longrightarrow> sel = []" using I(5) by auto
  ultimately show "case selectLoop tokenBudget candidates ([], 0, 0, 0) of
      (selected, tokensUsed, selectedCount, omittedCount) \<Rightarrow>
        tokensUsed = sum_list (map estimate selected)
        \<and> selectedCount = int (length selected)
        \<and> selectedCount + omittedCount = int (length candidates)
        \<and> (candidates = [] \<longrightarrow> selected = [])
        \<and> (candidates \<noteq> [] \<longrightarrow>
             selected \<noteq> [] \<and> hd selected = mem (hd candidates)
             \<and> (tokensUsed \<le> tokenBudget \<or> selected = [mem (hd candidates)]))"
    using I(1,2,4) by (simp add: run)
next
  show "0 < tokenBudget \<and> db_GetMemoriesForContext env tr chatID 100 = (memories, None)
        \<and> memories \<noteq> [] \<longrightarrow>
          fst (BuildDBMemoryContext env tr chatID query tokenBudget) \<noteq> []"
  proof
    assume a: "0 < tokenBudget \<and> db_GetMemoriesForContext env tr chatID 100 = (memories, None)
        \<and> memories \<noteq> []"
    let ?cs = "sortCandidates (map (\<lambda>m. \<lparr>mem = m, score = scoreOf env query m\<rparr>) memories)"
    obtain sel used n om where run: "selectLoop tokenBudget ?cs ([], 0, 0, 0) = (sel, used, n, om)"
      by (cases "selectLoop tokenBudget ?cs ([], 0, 0, 0)") auto
    have "?cs \<noteq> []" using a length_sortCandidates [of "map (\<lambda>m. \<lparr>mem = m, score = scoreOf env query m\<rparr>) memories"]
      by (metis length_0_conv length_map)
    with selectLoop_invariant [OF run] have "sel \<noteq> []" by (auto split: list.splits)
    then show "fst (BuildDBMemoryContext env tr chatID query tokenBudget) \<noteq> []"
      using a run by (simp add: BuildDBMemoryContext_def Let_def formatMemories_def)
  qed
qed

theorem selection_respects_budget_witness:
  "selectLoop 5
     [\<lparr>mem = memory 1 ''prefers long walks on the beach at dawn'' 0.75, score = 0.75\<rparr>,
      \<lparr>mem = memory 2 ''owns a cat'' 0.5, score = 0.5\<rparr>] ([], 0, 0, 0)
     = ([memory 1 ''prefers long walks on the beach at dawn'' 0.75], 9, 1, 1)
   \<and> fst (BuildDBMemoryContext memEnv [] 7 ''tea'' 5) \<noteq> []"
proof -
  have run: "selectLoop 5
     [\<lparr>mem = memory 1 ''prefers long walks on the beach at dawn'' 0.75, score = 0.75\<rparr>,
      \<lparr>mem = memory 2 ''owns a cat'' 0.5, score = 0.5\<rparr>] ([], 0, 0, 0)
     = ([memory 1 ''prefers long walks on the beach at dawn'' 0.75], 9, 1, 1)"
    by (simp add: estimate_def memory_def)
  have db: "db_GetMemoriesForContext memEnv [] 7 100
              = ([memory 1 ''prefers long walks on the beach at dawn'' 0.75, memory 2 ''owns a cat'' 0.5], None)"
    by (simp add: memEnv_def)
  from selection_respects_budget [where tokenBudget = 5 and env = memEnv and tr = "[]" and chatID = 7
      and memories = "[memory 1 ''prefers long walks on the beach at dawn'' 0.75, memory 2 ''owns a cat'' 0.5]"
      and query = "''tea''", THEN conjunct2] db
  have "fst (BuildDBMemoryContext memEnv [] 7 ''tea'' 5) \<noteq> []" by simp
  with run show ?thesis by simp
qed


section \<open>Agent loop: properties\<close>

lemma sentMessages_append: "sentMessages (xs @ ys) = sentMessages xs @ sentMessages ys"
  by (induction xs) (auto split: Effect.splits)

lemma sentMessages_SaveSession: "sentMessages (snd (SaveSession env tr chatID messages)) = sentMessages tr"
  by (simp add: SaveSession_def Let_def sentMessages_append)

lemma sentMessages_logUsage: "sentMessages (logUsage tr reqCtx resp) = sentMessages tr"
  by (simp add: logUsage_def sentMessages_append split: option.splits)

lemma sentMessages_executeTools: "sentMessages (fst (executeTools env tr toolUses)) = sentMessages tr"
proof (induction toolUses arbitrary: tr)
  case Nil
  show ?case by simp
next
  case (Cons tu rest)
  from Cons [of "tr @ [ExecuteWithAuthCall (rb_Name tu) (rb_Input tu)]"]
  show ?case by (auto simp: Let_def sentMessages_append split: prod.splits)
qed

lemma not_nudge_assistant: "\<lparr>Role = ''assistant'', Content = c\<rparr> \<noteq> nudgeMessage"
  by (simp add: nudgeMessage_def)

lemma not_nudge_blocks: "\<lparr>Role = r, Content = BlocksContent bs\<rparr> \<noteq> nudgeMessage"
  by (simp add: nudgeMessage_def BlocksContent_def TextContent_def)

lemma iterationBody_cases:
  "case iterationBody env reqCtx sys it retried messages tr of
     Continue retried' messages' tr' \<Rightarrow>
       sentMessages tr' = sentMessages tr @ [messages]
       \<and> length messages' = length messages + 2
       \<and> nudgeSlack retried' messages' \<le> nudgeSlack retried messages
   | Return (res, tr') \<Rightarrow>
       sentMessages tr' = sentMessages tr \<or> sentMessages tr' = sentMessages tr @ [messages]"
proof (cases "ctx_Err env tr")
  case (Some e)
  then show ?thesis by (simp add: iterationBody_def)
next
  case None
  show ?thesis
  proof (cases "llm_SendMessage env tr sys messages True")
    case (Inl e)
    with None show ?thesis by (simp add: iterationBody_def sentMessages_append)
  next
    case (Inr resp)
    obtain tr2 blocks where ex: "executeTools env (logUsage (tr @ [SendMessageCall sys messages True]) reqCtx resp)
              (filter (\<lambda>block. rb_Type block = ''tool_use'') (resp_Content resp)) = (tr2, blocks)"
      by (cases "executeTools env (logUsage (tr @ [SendMessageCall sys messages True]) reqCtx resp)
              (filter (\<lambda>block. rb_Type block = ''tool_use'') (resp_Content resp))") auto
    from sentMessages_executeTools [of env "logUsage (tr @ [SendMessageCall sys messages True]) reqCtx resp"
          "filter (\<lambda>block. rb_Type block = ''tool_use'') (resp_Content resp)"] ex
    have tr2: "sentMessages tr2 = sentMessages tr @ [messages]"
      by (simp add: sentMessages_logUsage sentMessages_append)
    from None Inr ex tr2 show ?thesis
      by (simp add: iterationBody_def Let_def sentMessages_SaveSession sentMessages_logUsage
            sentMessages_append nudgeSlack_def not_nudge_assistant not_nudge_blocks)
  qed
qed

lemma iterationBody_Continue:
  assumes "iterationBody env reqCtx sys it retried messages tr = Continue retried' messages' tr'"
  shows "sentMessages tr' = sentMessages tr @ [messages]"
    and "length messages' = length messages + 2"
    and "nudgeSlack retried' messages' \<le> nudgeSlack retried messages"
  using iterationBody_cases [where env = env and reqCtx = reqCtx and sys = sys and it = it
      and retried = retried and messages = messages and tr = tr] assms
  by simp_all

lemma iterationBody_Return:
  assumes "iterationBody env reqCtx sys it retried messages tr = Return (res, tr')"
  shows "sentMessages tr' = sentMessages tr \<or> sentMessages tr' = sentMessages tr @ [messages]"
  using iterationBody_cases [where env = env and reqCtx = reqCtx and sys = sys and it = it
      and retried = retried and messages = messages and tr = tr] assms
  by simp

lemma agentLoop_sent:
  "\<exists>new. sentMessages (snd (agentLoop env cfg reqCtx sys n it retried messages tr)) = sentMessages tr @ new
         \<and> length new \<le> n
         \<and> (\<forall>m \<in> set new. count_list m nudgeMessage \<le> nudgeSlack retried messages)"
proof (induction n arbitrary: it retried messages tr)
  case 0
  show ?case by (simp add: sentMessages_SaveSession)
next
  case (Suc n)
  show ?case
  proof (cases "iterationBody env reqCtx sys it retried messages tr")
    case (Return result)
    obtain res tr' where r: "result = (res, tr')" by (cases result)
    from iterationBody_Return Return r
    have "sentMessages tr' = sentMessages tr \<or> sentMessages tr' = sentMessages tr @ [messages]"
      by simp
    then show ?thesis
    proof
      assume "sentMessages tr' = sentMessages tr"
      then show ?thesis using Return r by simp
    next
      assume "sentMessages tr' = sentMessages tr @ [messages]"
      then show ?thesis using Return r by (simp add: nudgeSlack_def)
    qed
  next
    case (Continue retried' messages' tr')
    from iterationBody_Continue [OF Continue]
    have st: "sentMessages tr' = sentMessages tr @ [messages]"
      and sl: "nudgeSlack retried' messages' \<le> nudgeSlack retried messages"
      by simp_all
    from Suc [of "it + 1" retried' messages' tr'] obtain new where
      new: "sentMessages (snd (agentLoop env cfg reqCtx sys n (it + 1) retried' messages' tr'))
              = sentMessages tr' @ new"
        "length new \<le> n" "\<forall>m \<in> set new. count_list m nudgeMessage \<le> nudgeSlack retried' messages'"
      by blast
    have "sentMessages (snd (agentLoop env cfg reqCtx sys (Suc n) it retried messages tr))
            = sentMessages tr @ (messages # new)"
      using Continue new(1) st by simp
    moreover have "length (messages # new) \<le> Suc n" using new(2) by simp
    moreover have "\<forall>m \<in> set (messages # new). count_list m nudgeMessage \<le> nudgeSlack retried messages"
      using new(3) sl by (auto simp: nudgeSlack_def)
    ultimately show ?thesis by blast
  qed
qed

lemma snd_SaveSession:
  "snd (SaveSession env tr chatID messages)
     = (if marshalOK env (StripImagesForSession messages)
        then tr @ [SaveSessionCall chatID (StripImagesForSession messages)] else tr)"
  by (simp add: SaveSession_def Let_def)








lemma iterationBody_tool_use:
  assumes "ctx_Err env tr = None" and "llm_SendMessage env tr sys messages True = Inr resp"
    and "resp_StopReason resp = ''tool_use''"
  shows "\<exists>messages' tr'. iterationBody env reqCtx sys it retried messages tr = Continue retried messages' tr'"
  using assms by (simp add: iterationBody_def Let_def split: prod.splits)

lemma exhaustedNotice_3:
  "cfg_MaxToolIterations cfg = 3 \<Longrightarrow>
     exhaustedNotice cfg = ''Reached maximum tool iterations (3). The task may be partially complete.''"
  by (simp add: exhaustedNotice_def showInt_def showNat.simps)

text \<open>
  Claim C7 as stated fails in its persistence part when the session does not encode: with
  a provider that always asks for a tool with the raw input \<open>{bad\<close>, the loop makes its
  three model calls and returns the notice, but \<open>json.Marshal\<close> fails in \<open>SaveSession\<close>,
  whose error the engine does not look at, and the database is never called.
\<close>

theorem tool_loop_save_fails_on_bad_input:
  "fst (agentLoop badInputEnv (defaultConfig\<lparr>cfg_MaxToolIterations := 3\<rparr>) chat7 ''system'' 3 0 False
          [\<lparr>Role = ''user'', Content = TextContent ''go''\<rparr>] [])
     = Inr ''Reached maximum tool iterations (3). The task may be partially complete.''
   \<and> length (sentMessages (snd (agentLoop badInputEnv (defaultConfig\<lparr>cfg_MaxToolIterations := 3\<rparr>) chat7
        ''system'' 3 0 False [\<lparr>Role = ''user'', Content = TextContent ''go''\<rparr>] []))) = 3
   \<and> savedSessions (snd (agentLoop badInputEnv (defaultConfig\<lparr>cfg_MaxToolIterations := 3\<rparr>) chat7
        ''system'' 3 0 False [\<lparr>Role = ''user'', Content = TextContent ''go''\<rparr>] [])) = []"
  by code_simp

text \<open>
  Claim C7, amended: with a provider that always answers \<open>tool_use\<close>, no cancellation and
  \<open>MaxToolIterations = 3\<close>, the loop runs its body three times, which hands three message
  lists to the provider, the initial one and the lists after the first and the second tool
  round; it then saves the list after the third round as it stands, that is, the database
  is handed that list, stripped of images, whenever it encodes as JSON; and it returns the
  fixed notice as a result, not as an error. For every outside world the loop makes at
  most as many model calls as iterations remain.
\<close>

theorem tool_loop_stops_after_max_iterations:
  assumes "cfg_MaxToolIterations cfg = 3"
    and "\<forall>tr. ctx_Err env tr = None"
    and "\<forall>tr sys messages. \<exists>resp. llm_SendMessage env tr sys messages True = Inr resp
           \<and> resp_StopReason resp = ''tool_use''"
  shows "(\<exists>m1 t1 m2 t2 m3 t3.
            iterationBody env reqCtx sys 0 False messages tr = Continue False m1 t1
            \<and> iterationBody env reqCtx sys 1 False m1 t1 = Continue False m2 t2
            \<and> iterationBody env reqCtx sys 2 False m2 t2 = Continue False m3 t3
            \<and> sentMessages t3 = sentMessages tr @ [messages, m1, m2]
            \<and> length m3 = length messages + 6
            \<and> agentLoop env cfg reqCtx sys (nat (cfg_MaxToolIterations cfg)) 0 False messages tr
                = (Inr ''Reached maximum tool iterations (3). The task may be partially complete.'',
                   if marshalOK env (StripImagesForSession m3)
                   then t3 @ [SaveSessionCall (ChatID reqCtx) (StripImagesForSession m3)]
                   else t3))
         \<and> length (sentMessages (snd (agentLoop env2 cfg2 reqCtx2 sys2 n it retried messages2 tr2)))
             \<le> length (sentMessages tr2) + n"
proof
  have tool: "\<And>it messages tr. \<exists>messages' tr'.
      iterationBody env reqCtx sys it False messages tr = Continue False messages' tr'"
  proof -
    fix it messages tr
    from assms(2,3) obtain resp where "ctx_Err env tr = None"
      "llm_SendMessage env tr sys messages True = Inr resp" "resp_StopReason resp = ''tool_use''"
      by blast
    from iterationBody_tool_use [OF this]
    show "\<exists>messages' tr'. iterationBody env reqCtx sys it False messages tr = Continue False messages' tr'" .
  qed
  from tool obtain m1 t1 where s1: "iterationBody env reqCtx sys 0 False messages tr = Continue False m1 t1"
    by blast
  from tool obtain m2 t2 where s2: "iterationBody env reqCtx sys 1 False m1 t1 = Continue False m2 t2"
    by blast
  from tool obtain m3 t3 where s3: "iterationBody env reqCtx sys 2 False m2 t2 = Continue False m3 t3"
    by blast
  note C1 = iterationBody_Continue [OF s1]
  note C2 = iterationBody_Continue [OF s2]
  note C3 = iterationBody_Continue [OF s3]
  have sent: "sentMessages t3 = sentMessages tr @ [messages, m1, m2]"
    using C1(1) C2(1) C3(1) by simp
  have len: "length m3 = length messages + 6" using C1(2) C2(2) C3(2) by simp
  have n3: "nat (cfg_MaxToolIterations cfg) = Suc (Suc (Suc 0))" using assms(1) by simp
  have notice: "exhaustedNotice cfg
      = ''Reached maximum tool iterations (3). The task may be partially complete.''"
    using assms(1) by (rule exhaustedNotice_3)
  have run: "agentLoop env cfg reqCtx sys (nat (cfg_MaxToolIterations cfg)) 0 False messages tr
                = (Inr ''Reached maximum tool iterations (3). The task may be partially complete.'',
                   if marshalOK env (StripImagesForSession m3)
                   then t3 @ [SaveSessionCall (ChatID reqCtx) (StripImagesForSession m3)]
                   else t3)"
    unfolding n3 using s1 s2 s3 notice by (simp add: snd_SaveSession)
  from s1 s2 s3 sent len run
  show "\<exists>m1 t1 m2 t2 m3 t3.
            iterationBody env reqCtx sys 0 False messages tr = Continue False m1 t1
            \<and> iterationBody env reqCtx sys 1 False m1 t1 = Continue False m2 t2
            \<and> iterationBody env reqCtx sys 2 False m2 t2 = Continue False m3 t3
            \<and> sentMessages t3 = sentMessages tr @ [messages, m1, m2]
            \<and> length m3 = length messages + 6
            \<and> agentLoop env cfg reqCtx sys (nat (cfg_MaxToolIterations cfg)) 0 False messages tr
                = (Inr ''Reached maximum tool iterations (3). The task may be partially complete.'',
                   if marshalOK env (StripImagesForSession m3)
                   then t3 @ [SaveSessionCall (ChatID reqCtx) (StripImagesForSession m3)]
                   else t3)"
    by blast
next
  from agentLoop_sent [of env2 cfg2 reqCtx2 sys2 n it retried messages2 tr2]
  show "length (sentMessages (snd (agentLoop env2 cfg2 reqCtx2 sys2 n it retried messages2 tr2)))
             \<le> length (sentMessages tr2) + n"
    by auto
qed

theorem tool_loop_stops_after_max_iterations_witness:
  "agentLoop toolEnv (defaultConfig\<lparr>cfg_MaxToolIterations := 3\<rparr>) chat7 ''system'' 3 0 False
     [\<lparr>Role = ''user'', Content = TextContent ''go''\<rparr>] []
   = (Inr ''Reached maximum tool iterations (3). The task may be partially complete.'',
      [SendMessageCall ''system'' [\<lparr>Role = ''user'', Content = TextContent ''go''\<rparr>] True,
       ExecuteWithAuthCall ''echo'' (Some ''{}''),
       SendMessageCall ''system''
         [\<lparr>Role = ''user'', Content = TextContent ''go''\<rparr>,
          \<lparr>Role = ''assistant'', Content = BlocksContent (Some [ToolUseBlock ''t1'' ''echo'' (Some ''{}'')])\<rparr>,
          \<lparr>Role = ''user'', Content = BlocksContent (Some [ToolResultBlock ''t1'' ''done'' False])\<rparr>] True,
       ExecuteWithAuthCall ''echo'' (Some ''{}''),
       SendMessageCall ''system''
         [\<lparr>Role = ''user'', Content = TextContent ''go''\<rparr>,
          \<lparr>Role = ''assistant'', Content = BlocksContent (Some [ToolUseBlock ''t1'' ''echo'' (Some ''{}'')])\<rparr>,
          \<lparr>Role = ''user'', Content = BlocksContent (Some [ToolResultBlock ''t1'' ''done'' False])\<rparr>,
          \<lparr>Role = ''assistant'', Content = BlocksContent (Some [ToolUseBlock ''t1'' ''echo'' (Some ''{}'')])\<rparr>,
          \<lparr>Role = ''user'', Content = BlocksContent (Some [ToolResultBlock ''t1'' ''done'' False])\<rparr>] True,
       ExecuteWithAuthCall ''echo'' (Some ''{}''),
       SaveSessionCall 7
         [\<lparr>Role = ''user'', Content = TextContent ''go''\<rparr>,
          \<lparr>Role = ''assistant'', Content = BlocksContent (Some [ToolUseBlock ''t1'' ''echo'' (Some ''{}'')])\<rparr>,
          \<lparr>Role = ''user'', Content = BlocksContent (Some [ToolResultBlock ''t1'' ''done'' False])\<rparr>,
          \<lparr>Role = ''assistant'', Content = BlocksContent (Some [ToolUseBlock ''t1'' ''echo'' (Some ''{}'')])\<rparr>,
          \<lparr>Role = ''user'', Content = BlocksContent (Some [ToolResultBlock ''t1'' ''done'' False])\<rparr>,
          \<lparr>Role = ''assistant'', Content = BlocksContent (Some [ToolUseBlock ''t1'' ''echo'' (Some ''{}'')])\<rparr>,
          \<lparr>Role = ''user'', Content = BlocksContent (Some [ToolResultBlock ''t1'' ''done'' False])\<rparr>]])"
proof -
  let ?cfg = "defaultConfig\<lparr>cfg_MaxToolIterations := 3\<rparr>"
  let ?u = "\<lparr>Role = ''user'', Content = TextContent ''go''\<rparr>"
  let ?a = "\<lparr>Role = ''assistant'', Content = BlocksContent (Some [ToolUseBlock ''t1'' ''echo'' (Some ''{}'')])\<rparr>"
  let ?r = "\<lparr>Role = ''user'', Content = BlocksContent (Some [ToolResultBlock ''t1'' ''done'' False])\<rparr>"
  let ?x = "ExecuteWithAuthCall ''echo'' (Some ''{}'')"
  let ?t1 = "[SendMessageCall ''system'' [?u] True, ?x]"
  let ?t2 = "?t1 @ [SendMessageCall ''system'' [?u, ?a, ?r] True, ?x]"
  let ?t3 = "?t2 @ [SendMessageCall ''system'' [?u, ?a, ?r, ?a, ?r] True, ?x]"
  have h1: "cfg_MaxToolIterations ?cfg = 3" by simp
  have h2: "\<forall>tr. ctx_Err toolEnv tr = None" by (simp add: toolEnv_def quietEnv_def)
  have h3: "\<forall>tr sys messages. \<exists>resp. llm_SendMessage toolEnv tr sys messages True = Inr resp
           \<and> resp_StopReason resp = ''tool_use''" by (simp add: toolEnv_def)
  have body: "\<And>it ms tr. iterationBody toolEnv chat7 ''system'' it False ms tr
      = Continue False (ms @ [?a, ?r]) (tr @ [SendMessageCall ''system'' ms True, ?x])"
    by (simp add: iterationBody_def toolEnv_def quietEnv_def logUsage_def Let_def appended_def)
  have ok: "marshalOK toolEnv (StripImagesForSession [?u, ?a, ?r, ?a, ?r, ?a, ?r])"
    by (auto simp: marshalOK_def toolEnv_def quietEnv_def split: option.splits)
  have strip: "StripImagesForSession [?u, ?a, ?r, ?a, ?r, ?a, ?r] = [?u, ?a, ?r, ?a, ?r, ?a, ?r]"
    by (simp add: StripImagesForSession_def IsBlocks_def BlocksContent_def TextContent_def
          blocks_of_def appended_def ToolUseBlock_def ToolResultBlock_def emptyBlock_def)
  from tool_loop_stops_after_max_iterations [where cfg = ?cfg and env = toolEnv and reqCtx = chat7
      and sys = "''system''" and messages = "[?u]" and tr = "[]", OF h1 h2 h3, THEN conjunct1]
  obtain m1 t1 m2 t2 m3 t3 where
    s1: "iterationBody toolEnv chat7 ''system'' 0 False [?u] [] = Continue False m1 t1"
    and s2: "iterationBody toolEnv chat7 ''system'' 1 False m1 t1 = Continue False m2 t2"
    and s3: "iterationBody toolEnv chat7 ''system'' 2 False m2 t2 = Continue False m3 t3"
    and run: "agentLoop toolEnv ?cfg chat7 ''system'' (nat (cfg_MaxToolIterations ?cfg)) 0 False [?u] []
                = (Inr ''Reached maximum tool iterations (3). The task may be partially complete.'',
                   if marshalOK toolEnv (StripImagesForSession m3)
                   then t3 @ [SaveSessionCall (ChatID chat7) (StripImagesForSession m3)]
                   else t3)"
    by blast
  from s1 have e1: "m1 = [?u, ?a, ?r]" "t1 = ?t1" by (simp_all add: body)
  from s2 have e2: "m2 = [?u, ?a, ?r, ?a, ?r]" "t2 = ?t2" by (simp_all add: body e1)
  from s3 have e3: "m3 = [?u, ?a, ?r, ?a, ?r, ?a, ?r]" "t3 = ?t3" by (simp_all add: body e2)
  from run ok show ?thesis
    unfolding e3 strip by (simp add: chat7_def del: agentLoop.simps)
qed


section \<open>Compaction and the remember command: properties\<close>

text \<open>
  Claim C8: when the summarization call fails or yields no summary text,
  \<open>CompactMessages\<close> returns the messages it was given, and the engine goes on with
  them: the compaction step yields the uncompacted messages, not an error.
\<close>

theorem compaction_failure_keeps_history:
  assumes "0 \<le> cfg_CompactKeepRecent cfg"
    and "case llm_SendMessage env (tr @ [ArchiveConversationCall (CallerChannel reqCtx) (ChatID reqCtx) messages])
                summarizerSystem
                [\<lparr>Role = ''user'', Content = TextContent
                    (summaryPrompt (take (length messages - nat (cfg_CompactKeepRecent cfg)) messages))\<rparr>]
                False of
           Inl err \<Rightarrow> True
         | Inr resp \<Rightarrow>
             concat (map rb_Text (filter (\<lambda>block. rb_Type block = ''text'') (resp_Content resp))) = []"
  shows "(\<exists>err. fst (CompactMessages env
                   (tr @ [ArchiveConversationCall (CallerChannel reqCtx) (ChatID reqCtx) messages])
                   messages (cfg_CompactKeepRecent cfg)) = Inr (messages, err))
         \<and> fst (compactIfNeeded env tr cfg reqCtx messages) = Inr messages"
proof -
  let ?tr = "tr @ [ArchiveConversationCall (CallerChannel reqCtx) (ChatID reqCtx) messages]"
  have a: "\<exists>err. fst (CompactMessages env ?tr messages (cfg_CompactKeepRecent cfg)) = Inr (messages, err)"
    using assms by (auto simp: CompactMessages_def Let_def split: sum.splits)
  then obtain err where e: "fst (CompactMessages env ?tr messages (cfg_CompactKeepRecent cfg)) = Inr (messages, err)"
    by blast
  obtain tr' where "CompactMessages env ?tr messages (cfg_CompactKeepRecent cfg) = (Inr (messages, err), tr')"
    using e by (cases "CompactMessages env ?tr messages (cfg_CompactKeepRecent cfg)") auto
  then have "fst (compactIfNeeded env tr cfg reqCtx messages) = Inr messages"
    by (simp add: compactIfNeeded_def Let_def)
  with a show ?thesis by simp
qed

theorem compaction_failure_keeps_history_witness:
  "fst (compactIfNeeded (quietEnv\<lparr>llm_SendMessage := (\<lambda>tr system messages tools. Inl ''timeout'')\<rparr>) []
          (defaultConfig\<lparr>cfg_MaxSessionMessages := 2, cfg_CompactKeepRecent := 1\<rparr>) chat7
          [\<lparr>Role = ''user'', Content = TextContent ''a''\<rparr>,
           \<lparr>Role = ''assistant'', Content = TextContent ''b''\<rparr>,
           \<lparr>Role = ''user'', Content = TextContent ''c''\<rparr>])
     = Inr [\<lparr>Role = ''user'', Content = TextContent ''a''\<rparr>,
           \<lparr>Role = ''assistant'', Content = TextContent ''b''\<rparr>,
           \<lparr>Role = ''user'', Content = TextContent ''c''\<rparr>]
   \<and> snd (compactIfNeeded (quietEnv\<lparr>llm_SendMessage := (\<lambda>tr system messages tools. Inl ''timeout'')\<rparr>) []
          (defaultConfig\<lparr>cfg_MaxSessionMessages := 2, cfg_CompactKeepRecent := 1\<rparr>) chat7
          [\<lparr>Role = ''user'', Content = TextContent ''a''\<rparr>,
           \<lparr>Role = ''assistant'', Content = TextContent ''b''\<rparr>,
           \<lparr>Role = ''user'', Content = TextContent ''c''\<rparr>])
     = [ArchiveConversationCall ''web'' 7
          [\<lparr>Role = ''user'', Content = TextContent ''a''\<rparr>,
           \<lparr>Role = ''assistant'', Content = TextContent ''b''\<rparr>,
           \<lparr>Role = ''user'', Content = TextContent ''c''\<rparr>],
        SendMessageCall summarizerSystem
          [\<lparr>Role = ''user'', Content = TextContent (summaryPrompt
             [\<lparr>Role = ''user'', Content = TextContent ''a''\<rparr>,
              \<lparr>Role = ''assistant'', Content = TextContent ''b''\<rparr>])\<rparr>] False]"
proof -
  let ?env = "quietEnv\<lparr>llm_SendMessage := (\<lambda>tr system messages tools. Inl ''timeout'')\<rparr>"
  let ?cfg = "defaultConfig\<lparr>cfg_MaxSessionMessages := 2, cfg_CompactKeepRecent := 1\<rparr>"
  let ?ms = "[\<lparr>Role = ''user'', Content = TextContent ''a''\<rparr>,
           \<lparr>Role = ''assistant'', Content = TextContent ''b''\<rparr>,
           \<lparr>Role = ''user'', Content = TextContent ''c''\<rparr>]"
  have h1: "0 \<le> cfg_CompactKeepRecent ?cfg" by simp
  have h2: "case llm_SendMessage ?env ([] @ [ArchiveConversationCall (CallerChannel chat7) (ChatID chat7) ?ms])
                summarizerSystem
                [\<lparr>Role = ''user'', Content = TextContent
                    (summaryPrompt (take (length ?ms - nat (cfg_CompactKeepRecent ?cfg)) ?ms))\<rparr>]
                False of
           Inl err \<Rightarrow> True
         | Inr resp \<Rightarrow>
             concat (map rb_Text (filter (\<lambda>block. rb_Type block = ''text'') (resp_Content resp))) = []"
    by simp
  from compaction_failure_keeps_history [OF h1 h2]
  have "fst (compactIfNeeded ?env [] ?cfg chat7 ?ms) = Inr ?ms" by simp
  moreover have "snd (compactIfNeeded ?env [] ?cfg chat7 ?ms)
     = [ArchiveConversationCall ''web'' 7 ?ms,
        SendMessageCall summarizerSystem
          [\<lparr>Role = ''user'', Content = TextContent (summaryPrompt
             [\<lparr>Role = ''user'', Content = TextContent ''a''\<rparr>,
              \<lparr>Role = ''assistant'', Content = TextContent ''b''\<rparr>])\<rparr>] False]"
    by (simp add: compactIfNeeded_def CompactMessages_def defaultConfig_def chat7_def Let_def)
  ultimately show ?thesis by simp
qed

text \<open>
  Claim C10: without an override prompt, when the most recent stored message of the chat
  is not from the bot, starts with \<open>/remember:\<close> in any letter case and has text after
  it, the agent returns \<open>Remembered.\<close> and its only effect is the insertion of that text,
  trimmed, as a memory of the chat: no model call, no archive or compaction, no session
  save.
\<close>

theorem remember_fast_path:
  assumes "db_GetRecentMessages env tr (ChatID reqCtx) 1 = (msgs, None)"
    and "msgs \<noteq> []"
    and "\<not> sm_IsFromBot (last msgs)"
    and "prefix ''/remember:'' (ToLower (sm_Content (last msgs)))"
    and "TrimSpace (drop (length ''/remember:'') (sm_Content (last msgs))) \<noteq> []"
  shows "ProcessWithEvents env cfg reqCtx None imageData tr
           = (Inr ''Remembered.'',
              tr @ [InsertMemoryWithMetadataCall (Some (ChatID reqCtx))
                      (TrimSpace (drop (length ''/remember:'') (sm_Content (last msgs)))) ''KNOWLEDGE'' ''user_explicit'' 0.95])"
  using assms by (simp add: ProcessWithEvents_def rememberCommand_def Let_def)

lemma remember_text: "TrimSpace (drop (length ''/remember:'') ''/Remember: buy milk '') = ''buy milk''"
  by code_simp

theorem remember_fast_path_witness:
  "ProcessWithEvents rememberEnv defaultConfig chat7 None None []
     = (Inr ''Remembered.'',
        [InsertMemoryWithMetadataCall (Some 7) ''buy milk'' ''KNOWLEDGE'' ''user_explicit'' 0.95])"
proof -
  let ?m = "\<lparr>sm_ID = ''m1'', sm_ChatID = 7, sm_SenderName = ''ann'', sm_Content = ''/Remember: buy milk '',
         sm_IsFromBot = False, sm_Timestamp = ''2026-01-01T00:00:00Z''\<rparr>"
  have h1: "db_GetRecentMessages rememberEnv [] (ChatID chat7) 1 = ([?m], None)"
    by (simp add: rememberEnv_def)
  have h2: "[?m] \<noteq> []" by simp
  have h3: "\<not> sm_IsFromBot (last [?m])" by simp
  have h4: "prefix ''/remember:'' (ToLower (sm_Content (last [?m])))"
    by (simp add: ToLower_def lowerByte_def)
  have h5: "TrimSpace (drop (length ''/remember:'') (sm_Content (last [?m]))) \<noteq> []"
    using remember_text by simp
  from remember_fast_path [OF h1 h2 h3 h4 h5, of defaultConfig None] remember_text
  show ?thesis by (simp add: chat7_def)
qed


section \<open>What the agent loop sends\<close>

text \<open>
  Claim C2 fails on the code: \<open>SanitizeMessages\<close> has no caller, and the loop hands its
  message list to the provider as it is. A scheduled prompt for a chat without a session,
  whose stored history is one user message: the provider receives two consecutive user
  messages, where the sanitizer would give one.
\<close>

theorem agent_sends_unsanitized_history:
  "sentMessages (snd (ProcessWithEvents historyEnv defaultConfig chat7 (Some ''daily report'') None []))
     = [[\<lparr>Role = ''user'', Content = TextContent ''[ann]: hello''\<rparr>,
         \<lparr>Role = ''user'', Content = TextContent ''daily report''\<rparr>]]
   \<and> SanitizeMessages
        [\<lparr>Role = ''user'', Content = TextContent ''[ann]: hello''\<rparr>,
         \<lparr>Role = ''user'', Content = TextContent ''daily report''\<rparr>]
     = [\<lparr>Role = ''user'', Content = TextContent (''[ann]: hello'' @ newline @ ''daily report'')\<rparr>]
   \<and> sentMessages (snd (ProcessWithEvents historyEnv defaultConfig chat7 (Some ''daily report'') None []))
     \<noteq> [SanitizeMessages
          [\<lparr>Role = ''user'', Content = TextContent ''[ann]: hello''\<rparr>,
           \<lparr>Role = ''user'', Content = TextContent ''daily report''\<rparr>]]"
  by code_simp

end
